theory Spec2Isabelle
  imports Complex_Main "HOL-Library.Multiset"
begin

section \<open>ECMAScript values\<close>

text \<open>
  The visualizer receives \<^verbatim>\<open>data: unknown\<close>. Values are modelled as the JSON-shaped
  ECMAScript values plus \<^verbatim>\<open>undefined\<close> and the built-in values that a property read
  can reach through a prototype: the five prototype objects of the values (\<open>JProto\<close>)
  and the functions they hold (\<open>JMethod p k\<close> is the function stored under \<open>k\<close> on
  prototype \<open>p\<close>). A number is a finite value (abstracted to a rational; only its sign,
  equality and order are observed by the code) or one of the three non-finite doubles. A
  string is a list of code units. An object is the list of its own enumerable properties
  in the order \<^verbatim>\<open>Object.keys\<close> enumerates them; a JSON-shaped object has the prototype
  \<^verbatim>\<open>Object.prototype\<close>.
\<close>

datatype jsnum = Fin rat | NaN | PosInf | NegInf

datatype js_proto =
  ObjectPrototype | ArrayPrototype | StringPrototype | NumberPrototype | BooleanPrototype

datatype jsval =
    JUndefined
  | JNull
  | JBool bool
  | JNum jsnum
  | JStr string
  | JArr "jsval list"
  | JObj "(string \<times> jsval) list"
  | JProto js_proto
  | JMethod js_proto string

type_synonym jsobj = "(string \<times> jsval) list"

datatype js_error = TypeError | SyntaxError | RangeError

text \<open>
  What the code takes from the runtime and is not part of the repository:
  \<^verbatim>\<open>JSON.parse\<close> (a throw is \<open>Inl\<close>); the conversions \<^verbatim>\<open>String(v)\<close> and
  \<^verbatim>\<open>Number(v)\<close> on values that are not already a string or a number, which throw a
  TypeError on an object that cannot be converted to a primitive (such as the JSON object
  \<^verbatim>\<open>{"toString": 1}\<close>); \<^verbatim>\<open>String.prototype.localeCompare\<close>; which names the
  prototypes of arrays, strings, numbers and booleans define (\<open>proto_has\<close>); what a
  property read on a built-in value gives (\<open>BuiltinGet\<close>); and the largest number of
  arguments a call with a spread accepts before the engine throws a RangeError
  (\<open>spread_limit\<close>).
\<close>

record js_runtime =
  JSON_parse :: "string \<Rightarrow> js_error + jsval"
  StringOf :: "jsval \<Rightarrow> js_error + string"
  NumberOf :: "jsval \<Rightarrow> js_error + jsnum"
  localeCompare :: "string \<Rightarrow> string \<Rightarrow> int"
  proto_has :: "js_proto \<Rightarrow> string \<Rightarrow> bool"
  BuiltinGet :: "jsval \<Rightarrow> string \<Rightarrow> jsval"
  spread_limit :: nat

text \<open>Sequencing of two steps of which the first may throw.\<close>

definition err_bind :: "js_error + 'a \<Rightarrow> ('a \<Rightarrow> js_error + 'b) \<Rightarrow> js_error + 'b" where
  "err_bind m f = (case m of Inl e \<Rightarrow> Inl e | Inr x \<Rightarrow> f x)"

text \<open>\<^verbatim>\<open>xs.map(f)\<close> where \<open>f\<close> may throw: the first throw ends the loop.\<close>

fun map_err :: "('a \<Rightarrow> js_error + 'b) \<Rightarrow> 'a list \<Rightarrow> js_error + 'b list" where
  "map_err f [] = Inr []"
| "map_err f (x # xs) =
    err_bind (f x) (\<lambda>y. err_bind (map_err f xs) (\<lambda>ys. Inr (y # ys)))"

definition js_String :: "js_runtime \<Rightarrow> jsval \<Rightarrow> js_error + string" where
  "js_String rt v = (case v of JStr s \<Rightarrow> Inr s | _ \<Rightarrow> StringOf rt v)"

definition js_Number :: "js_runtime \<Rightarrow> jsval \<Rightarrow> js_error + jsnum" where
  "js_Number rt v = (case v of JNum n \<Rightarrow> Inr n | _ \<Rightarrow> NumberOf rt v)"

text \<open>\<^verbatim>\<open>!raw\<close> is true exactly on the falsy values.\<close>

fun truthy :: "jsval \<Rightarrow> bool" where
  "truthy JUndefined = False"
| "truthy JNull = False"
| "truthy (JBool b) = b"
| "truthy (JNum (Fin q)) = (q \<noteq> 0)"
| "truthy (JNum NaN) = False"
| "truthy (JNum _) = True"
| "truthy (JStr s) = (s \<noteq> [])"
| "truthy _ = True"

text \<open>
  \<^verbatim>\<open>typeof value === "object" && value !== null && !Array.isArray(value)\<close>. The
  prototype of arrays is itself an array; a function has \<^verbatim>\<open>typeof\<close> \<^verbatim>\<open>"function"\<close>.
\<close>

fun isPlainObject :: "jsval \<Rightarrow> bool" where
  "isPlainObject (JObj _) = True"
| "isPlainObject (JProto p) = (p \<noteq> ArrayPrototype)"
| "isPlainObject _ = False"

fun isArray :: "jsval \<Rightarrow> bool" where
  "isArray (JArr _) = True"
| "isArray (JProto p) = (p = ArrayPrototype)"
| "isArray _ = False"

text \<open>The elements of an array value; \<^verbatim>\<open>Array.prototype\<close> is an empty array.\<close>

fun array_elems :: "jsval \<Rightarrow> jsval list" where
  "array_elems (JArr xs) = xs"
| "array_elems _ = []"

fun isString :: "jsval \<Rightarrow> bool" where
  "isString (JStr _) = True"
| "isString _ = False"

fun isFiniteNumber :: "jsval \<Rightarrow> bool" where
  "isFiniteNumber (JNum (Fin _)) = True"
| "isFiniteNumber _ = False"

subsection \<open>Decimal numerals and array indices\<close>

definition digit_char :: "nat \<Rightarrow> char" where
  "digit_char d = ''0123456789'' ! d"

fun dec_of_nat :: "nat \<Rightarrow> string" where
  "dec_of_nat n = (if n < 10 then [digit_char n] else dec_of_nat (n div 10) @ [digit_char (n mod 10)])"

declare dec_of_nat.simps [simp del]

definition digit_of :: "char \<Rightarrow> nat option" where
  "digit_of = map_of
     [(CHR ''0'', 0), (CHR ''1'', 1), (CHR ''2'', 2), (CHR ''3'', 3), (CHR ''4'', 4),
      (CHR ''5'', 5), (CHR ''6'', 6), (CHR ''7'', 7), (CHR ''8'', 8), (CHR ''9'', 9)]"

fun nat_of_dec :: "string \<Rightarrow> nat option" where
  "nat_of_dec [] = None"
| "nat_of_dec cs =
    (if list_all (\<lambda>c. digit_of c \<noteq> None) cs
     then Some (foldl (\<lambda>a c. 10 * a + the (digit_of c)) 0 cs) else None)"

text \<open>
  A property key is an array index when it is the canonical decimal numeral of an
  integer below \<open>2^32 - 1\<close>. Such keys are enumerated first, in ascending numeric order;
  all other keys follow in the order of their creation.
\<close>

definition array_index :: "string \<Rightarrow> nat option" where
  "array_index k =
    (case nat_of_dec k of
       None \<Rightarrow> None
     | Some n \<Rightarrow> if dec_of_nat n = k \<and> n < 4294967295 then Some n else None)"

subsection \<open>Properties of objects\<close>

definition Object_keys :: "jsobj \<Rightarrow> string list" where
  "Object_keys obj = map fst obj"

definition Object_values :: "jsobj \<Rightarrow> jsval list" where
  "Object_values obj = map snd obj"

text \<open>
  The string-keyed properties of \<^verbatim>\<open>Object.prototype\<close>: eleven functions and the
  accessor \<^verbatim>\<open>__proto__\<close>. A read that reaches \<^verbatim>\<open>Object.prototype\<close> gives the function
  of that name, the prototype of the value being read for \<^verbatim>\<open>__proto__\<close>, and
  \<^verbatim>\<open>undefined\<close> for any other name.
\<close>

definition Object_prototype_methods :: "string list" where
  "Object_prototype_methods =
     [''constructor'', ''__defineGetter__'', ''__defineSetter__'', ''hasOwnProperty'',
      ''__lookupGetter__'', ''__lookupSetter__'', ''isPrototypeOf'',
      ''propertyIsEnumerable'', ''toString'', ''valueOf'', ''toLocaleString'']"

definition Object_prototype_get :: "js_proto \<Rightarrow> string \<Rightarrow> jsval" where
  "Object_prototype_get p k =
    (if k = ''__proto__'' then JProto p
     else if k \<in> set Object_prototype_methods then JMethod ObjectPrototype k
     else JUndefined)"

text \<open>\<^verbatim>\<open>obj[k]\<close> on a plain object: the own property, else what \<^verbatim>\<open>Object.prototype\<close> gives.\<close>

definition obj_get :: "jsobj \<Rightarrow> string \<Rightarrow> jsval" where
  "obj_get obj k =
    (case map_of obj k of Some v \<Rightarrow> v | None \<Rightarrow> Object_prototype_get ObjectPrototype k)"

fun insert_index :: "nat \<Rightarrow> string \<Rightarrow> jsval \<Rightarrow> jsobj \<Rightarrow> jsobj" where
  "insert_index n k v [] = [(k, v)]"
| "insert_index n k v ((k', v') # obj) =
    (case array_index k' of
       Some m \<Rightarrow> if m < n then (k', v') # insert_index n k v obj
                 else (k, v) # (k', v') # obj
     | None \<Rightarrow> (k, v) # (k', v') # obj)"

text \<open>
  Defining the own property \<open>k\<close>, as a computed key of an object literal does: an
  existing property keeps its place; a new array-index key goes among the index keys; any
  other new key goes last.
\<close>

definition obj_define :: "jsobj \<Rightarrow> string \<Rightarrow> jsval \<Rightarrow> jsobj" where
  "obj_define obj k v =
    (if k \<in> set (map fst obj)
     then map (\<lambda>(k', v'). if k' = k then (k', v) else (k', v')) obj
     else case array_index k of
            Some n \<Rightarrow> insert_index n k v obj
          | None \<Rightarrow> obj @ [(k, v)])"

text \<open>
  The assignment \<^verbatim>\<open>acc[k] = v\<close> on an object that started as \<^verbatim>\<open>{}\<close>. Every name but
  \<^verbatim>\<open>__proto__\<close> becomes an own property. The name \<^verbatim>\<open>__proto__\<close> reaches the accessor of
  \<^verbatim>\<open>Object.prototype\<close>, whose setter defines no own property: it replaces the prototype
  of \<^verbatim>\<open>acc\<close> when \<open>v\<close> is an object or null and does nothing otherwise. The list of own
  properties does not record the prototype; the statements below about rows built with
  \<^verbatim>\<open>__proto__\<close> among the columns speak of own properties only.
\<close>

definition obj_assign :: "jsobj \<Rightarrow> string \<Rightarrow> jsval \<Rightarrow> jsobj" where
  "obj_assign obj k v = (if k = ''__proto__'' then obj else obj_define obj k v)"

text \<open>\<^verbatim>\<open>arr[idx]\<close> on an array without holes.\<close>

definition arr_get :: "jsval list \<Rightarrow> nat \<Rightarrow> jsval" where
  "arr_get arr idx = (if idx < length arr then arr ! idx else JUndefined)"

text \<open>
  A read that found no own property on an array, a string, a number or a boolean goes to
  the prototype \<open>p\<close> of the value, then to \<^verbatim>\<open>Object.prototype\<close>.
\<close>

definition proto_get :: "js_runtime \<Rightarrow> js_proto \<Rightarrow> string \<Rightarrow> jsval" where
  "proto_get rt p k = (if proto_has rt p k then JMethod p k else Object_prototype_get p k)"

text \<open>
  \<^verbatim>\<open>r?.[c]\<close> on any value: \<^verbatim>\<open>undefined\<close> on null and undefined; on an object its own
  property, on an array or a string its elements and \<^verbatim>\<open>length\<close>; otherwise what the
  prototype chain gives.
\<close>

fun opt_get :: "js_runtime \<Rightarrow> jsval \<Rightarrow> string \<Rightarrow> jsval" where
  "opt_get rt JUndefined c = JUndefined"
| "opt_get rt JNull c = JUndefined"
| "opt_get rt (JObj obj) c = obj_get obj c"
| "opt_get rt (JArr xs) c =
    (case array_index c of
       Some i \<Rightarrow> if i < length xs then xs ! i else proto_get rt ArrayPrototype c
     | None \<Rightarrow> if c = ''length'' then JNum (Fin (of_nat (length xs)))
               else proto_get rt ArrayPrototype c)"
| "opt_get rt (JStr s) c =
    (case array_index c of
       Some i \<Rightarrow> if i < length s then JStr [s ! i] else proto_get rt StringPrototype c
     | None \<Rightarrow> if c = ''length'' then JNum (Fin (of_nat (length s)))
               else proto_get rt StringPrototype c)"
| "opt_get rt (JNum n) c = proto_get rt NumberPrototype c"
| "opt_get rt (JBool b) c = proto_get rt BooleanPrototype c"
| "opt_get rt (JProto p) c = BuiltinGet rt (JProto p) c"
| "opt_get rt (JMethod p k) c = BuiltinGet rt (JMethod p k) c"

text \<open>
  \<^verbatim>\<open>Object.keys(r)\<close> on any value: it throws a TypeError on null and undefined, lists
  the own enumerable keys of an object and the indices of an array or a string, and is
  empty on numbers, booleans and built-in values.
\<close>

fun Object_keys_any :: "jsval \<Rightarrow> js_error + string list" where
  "Object_keys_any JUndefined = Inl TypeError"
| "Object_keys_any JNull = Inl TypeError"
| "Object_keys_any (JObj obj) = Inr (Object_keys obj)"
| "Object_keys_any (JArr xs) = Inr (map dec_of_nat [0..<length xs])"
| "Object_keys_any (JStr s) = Inr (map dec_of_nat [0..<length s])"
| "Object_keys_any _ = Inr []"

section \<open>The table normalizer (SqlResultVisualizer.tsx)\<close>

record NormalizedTable =
  columns :: "string list"
  rows :: "jsobj list"

text \<open>\<^verbatim>\<open>set.add(k)\<close> on a Set listed in insertion order.\<close>

definition set_add :: "string list \<Rightarrow> string \<Rightarrow> string list" where
  "set_add s k = (if k \<in> set s then s else s @ [k])"

fun unionObjectKeys_loop :: "string list \<Rightarrow> jsval list \<Rightarrow> js_error + string list" where
  "unionObjectKeys_loop s [] = Inr s"
| "unionObjectKeys_loop s (r # rs) =
    (case Object_keys_any r of
       Inl e \<Rightarrow> Inl e
     | Inr ks \<Rightarrow> unionObjectKeys_loop (foldl set_add s ks) rs)"

definition unionObjectKeys :: "jsval list \<Rightarrow> js_error + string list" where
  "unionObjectKeys rs = unionObjectKeys_loop [] rs"

fun indexOf :: "string \<Rightarrow> char \<Rightarrow> nat option" where
  "indexOf [] c = None"
| "indexOf (x # xs) c = (if x = c then Some 0 else map_option Suc (indexOf xs c))"

text \<open>The \<^verbatim>\<open>catch\<close> turns every throw of \<^verbatim>\<open>JSON.parse\<close> into null.\<close>

definition tryParseJsonArray :: "js_runtime \<Rightarrow> string \<Rightarrow> jsval list option" where
  "tryParseJsonArray rt text =
    (case indexOf text CHR ''['' of
       None \<Rightarrow> None
     | Some start \<Rightarrow>
        (case JSON_parse rt (drop start text) of
           Inl e \<Rightarrow> None
         | Inr parsed \<Rightarrow> if isArray parsed then Some (array_elems parsed) else None))"

text \<open>
  \<^verbatim>\<open>columns.reduce((acc, c) => { acc[c] = rowObj[c]; return acc; }, {})\<close>, with the
  property read passed as a function.
\<close>

definition build_row :: "(string \<Rightarrow> jsval) \<Rightarrow> string list \<Rightarrow> jsobj" where
  "build_row rd cols = foldl (\<lambda>acc c. obj_assign acc c (rd c)) [] cols"

text \<open>The same reduce with the index: \<^verbatim>\<open>acc[c] = arr[idx]\<close>.\<close>

definition build_row_idx :: "jsval list \<Rightarrow> string list \<Rightarrow> jsobj" where
  "build_row_idx arr cols =
    foldl (\<lambda>acc (c, idx). obj_assign acc c (arr_get arr idx)) [] (zip cols [0..<length cols])"

text \<open>\<^verbatim>\<open>Array.isArray(r) ? r.length : 0\<close>.\<close>

definition tuple_len :: "jsval \<Rightarrow> nat" where
  "tuple_len r = (if isArray r then length (array_elems r) else 0)"

definition tuple_columns :: "nat \<Rightarrow> string list" where
  "tuple_columns maxLen =
    (if maxLen = 2 then [''label'', ''value'']
     else map (\<lambda>i. ''col_'' @ dec_of_nat (i + 1)) [0..<maxLen])"

text \<open>The cast \<^verbatim>\<open>obj.columns as string[]\<close>, applied after every element passed the string test.\<close>

fun str_val :: "jsval \<Rightarrow> string" where
  "str_val (JStr s) = s"
| "str_val _ = []"

text \<open>
  The read \<^verbatim>\<open>rowObj[c]\<close> of the direct-table branch, where \<^verbatim>\<open>rowObj\<close> is the row when
  it is a plain object and \<^verbatim>\<open>{}\<close> otherwise.
\<close>

definition row_source :: "js_runtime \<Rightarrow> jsval \<Rightarrow> string \<Rightarrow> jsval" where
  "row_source rt r = (if isPlainObject r then opt_get rt r else obj_get [])"

text \<open>Case 1 of \<^verbatim>\<open>normalizeSqlResult\<close>, for a plain object \<open>raw\<close>; \<open>None\<close> when the test fails.\<close>

definition direct_table :: "js_runtime \<Rightarrow> jsval \<Rightarrow> NormalizedTable option" where
  "direct_table rt raw =
    (let colsValue = opt_get rt raw ''columns'';
         rowsValue = opt_get rt raw ''rows''
     in if isArray colsValue \<and> isArray rowsValue \<and> list_all isString (array_elems colsValue)
        then
          let cols = map str_val (array_elems colsValue);
              rws = map (\<lambda>r. build_row (row_source rt r) cols) (array_elems rowsValue)
          in Some \<lparr>columns = cols, rows = rws\<rparr>
        else None)"

text \<open>
  Cases 2 and 3, for a non-empty array \<open>xs\<close> with first element \<open>first\<close>; \<open>None\<close> when
  the first element is neither a plain object nor an array. In the tuple branch
  \<^verbatim>\<open>Math.max(...raw.map(..))\<close> passes one argument for each element and throws a
  RangeError when there are more than the engine accepts.
\<close>

definition array_table ::
    "js_runtime \<Rightarrow> jsval \<Rightarrow> jsval list \<Rightarrow> (js_error + NormalizedTable) option" where
  "array_table rt first xs =
    (if isPlainObject first then
       Some (case unionObjectKeys xs of
               Inl e \<Rightarrow> Inl e
             | Inr cols \<Rightarrow>
                 Inr \<lparr>columns = cols, rows = map (\<lambda>r. build_row (opt_get rt r) cols) xs\<rparr>)
     else if isArray first then
       Some (if spread_limit rt < length xs then Inl RangeError
             else
               let maxLen = Max (set (map tuple_len xs));
                   cols = tuple_columns maxLen;
                   rws = map (\<lambda>r. let arr = (if isArray r then array_elems r else [])
                                      in build_row_idx arr cols) xs
               in Inr \<lparr>columns = cols, rows = rws\<rparr>)
     else None)"

function normalizeSqlResult :: "js_runtime \<Rightarrow> jsval \<Rightarrow> js_error + NormalizedTable option" where
  "normalizeSqlResult rt raw =
    (if \<not> truthy raw then Inr None
     else case (if isPlainObject raw then direct_table rt raw else None) of
       Some t \<Rightarrow> Inr (Some t)
     | None \<Rightarrow>
        (case (if isArray raw
               then (case array_elems raw of
                       [] \<Rightarrow> Some (Inr \<lparr>columns = [], rows = []\<rparr>)
                     | first # _ \<Rightarrow> array_table rt first (array_elems raw))
               else None) of
           Some (Inl e) \<Rightarrow> Inl e
         | Some (Inr t) \<Rightarrow> Inr (Some t)
         | None \<Rightarrow>
            (case raw of
               JStr text \<Rightarrow>
                 (case tryParseJsonArray rt text of
                    Some parsed \<Rightarrow> normalizeSqlResult rt (JArr parsed)
                  | None \<Rightarrow> Inr None)
             | _ \<Rightarrow> Inr None)))"
  by pat_completeness auto
termination
  by (relation "measure (\<lambda>(rt, raw). case raw of JStr _ \<Rightarrow> 1 | _ \<Rightarrow> 0)") auto

declare normalizeSqlResult.simps [simp del]

section \<open>Encoding selection\<close>

record EncodingKeys =
  xKey :: "string option"
  yKey :: "string option"

record ChartPick = EncodingKeys +
  chartData :: "jsobj list"

text \<open>\<^verbatim>\<open>xs[0] ?? null\<close> on an array of strings.\<close>

definition first_or_null :: "string list \<Rightarrow> string option" where
  "first_or_null xs = (case xs of [] \<Rightarrow> None | x # _ \<Rightarrow> Some x)"

text \<open>vegaLiteFormatter.ts, \<^verbatim>\<open>pickEncodingKeys\<close>.\<close>

definition pickEncodingKeys :: "string list \<Rightarrow> jsobj list \<Rightarrow> EncodingKeys" where
  "pickEncodingKeys cols rws =
    (if length cols = 0 \<or> length rws = 0 then \<lparr>xKey = None, yKey = None\<rparr>
     else
       let numericCols = filter (\<lambda>c. list_ex (\<lambda>r. isFiniteNumber (obj_get r c)) rws) cols;
           textCols = filter (\<lambda>c. list_ex (\<lambda>r. isString (obj_get r c)) rws) cols;
           yk = first_or_null numericCols;
           xk = (case first_or_null textCols of Some c \<Rightarrow> Some c | None \<Rightarrow> first_or_null cols)
       in \<lparr>xKey = xk, yKey = yk\<rparr>)"

text \<open>\<^verbatim>\<open>!key\<close> on \<^verbatim>\<open>string | null\<close>: null and the empty string are falsy.\<close>

definition key_falsy :: "string option \<Rightarrow> bool" where
  "key_falsy k = (case k of None \<Rightarrow> True | Some s \<Rightarrow> s = [])"

text \<open>\<^verbatim>\<open>v ?? d\<close>.\<close>

definition nullish :: "jsval \<Rightarrow> jsval \<Rightarrow> jsval" where
  "nullish v d = (if v = JNull \<or> v = JUndefined then d else v)"

text \<open>
  One entry of \<^verbatim>\<open>chartData\<close>:
  \<^verbatim>\<open>{ [xKey]: String(r[xKey] ?? ""), [yKey]: Number(r[yKey]) }\<close>. The conversions run in
  this order and either may throw.
\<close>

definition chart_entry :: "js_runtime \<Rightarrow> string \<Rightarrow> string \<Rightarrow> jsobj \<Rightarrow> js_error + jsobj" where
  "chart_entry rt xk yk r =
    err_bind (js_String rt (nullish (obj_get r xk) (JStr []))) (\<lambda>s.
    err_bind (js_Number rt (obj_get r yk)) (\<lambda>n.
      Inr (obj_define (obj_define [] xk (JStr s)) yk (JNum n))))"

text \<open>SqlResultVisualizer.tsx, \<^verbatim>\<open>pickChart\<close>.\<close>

definition pickChart :: "js_runtime \<Rightarrow> string list \<Rightarrow> jsobj list \<Rightarrow> js_error + ChartPick" where
  "pickChart rt cols rws =
    (if length cols = 0 \<or> length rws = 0
     then Inr \<lparr>xKey = None, yKey = None, chartData = []\<rparr>
     else
       let numericCols = filter (\<lambda>c. list_ex (\<lambda>r. isFiniteNumber (obj_get r c)) rws) cols;
           textCols = filter (\<lambda>c. list_ex (\<lambda>r. isString (obj_get r c)) rws) cols;
           yk = first_or_null numericCols;
           xk = (case first_or_null textCols of Some c \<Rightarrow> Some c | None \<Rightarrow> first_or_null cols)
       in if key_falsy xk \<or> key_falsy yk then Inr \<lparr>xKey = xk, yKey = yk, chartData = []\<rparr>
          else
            err_bind (map_err (chart_entry rt (the xk) (the yk)) (take 30 rws)) (\<lambda>cd.
              Inr \<lparr>xKey = xk, yKey = yk, chartData = cd\<rparr>))"

section \<open>Sorting rows\<close>

datatype SortBy = value_desc | value_asc | label_asc | label_desc

text \<open>\<^verbatim>\<open>xs.find(p) ?? d\<close>: \<^verbatim>\<open>find\<close> gives \<^verbatim>\<open>undefined\<close> when nothing is found.\<close>

definition find_or :: "(jsval \<Rightarrow> bool) \<Rightarrow> jsval list \<Rightarrow> jsval \<Rightarrow> jsval" where
  "find_or p xs d = (case find p xs of Some v \<Rightarrow> nullish v d | None \<Rightarrow> d)"

definition getVal :: "jsobj \<Rightarrow> jsval" where
  "getVal r = find_or isFiniteNumber (Object_values r) (JNum (Fin 0))"

definition getLabel :: "jsobj \<Rightarrow> jsval" where
  "getLabel r = find_or isString (Object_values r) (JStr [])"

text \<open>
  Subtraction of numbers. On two finite doubles the result has the sign of the exact
  difference (overflow keeps the sign, and gradual underflow gives zero only for equal
  operands), which is all the sort observes.
\<close>

fun num_sub :: "jsnum \<Rightarrow> jsnum \<Rightarrow> jsnum" where
  "num_sub (Fin a) (Fin b) = Fin (a - b)"
| "num_sub NaN _ = NaN"
| "num_sub _ NaN = NaN"
| "num_sub PosInf PosInf = NaN"
| "num_sub NegInf NegInf = NaN"
| "num_sub PosInf _ = PosInf"
| "num_sub NegInf _ = NegInf"
| "num_sub (Fin a) PosInf = NegInf"
| "num_sub (Fin a) NegInf = PosInf"

text \<open>The comparator of \<^verbatim>\<open>sortRows\<close>; the four conversions come first, in this order.\<close>

definition compareRows :: "js_runtime \<Rightarrow> SortBy \<Rightarrow> jsobj \<Rightarrow> jsobj \<Rightarrow> js_error + jsnum" where
  "compareRows rt sortBy a b =
    err_bind (js_Number rt (getVal a)) (\<lambda>va.
    err_bind (js_Number rt (getVal b)) (\<lambda>vb.
    err_bind (js_String rt (getLabel a)) (\<lambda>la.
    err_bind (js_String rt (getLabel b)) (\<lambda>lb.
      Inr (case sortBy of
             value_asc \<Rightarrow> num_sub va vb
           | label_asc \<Rightarrow> Fin (of_int (localeCompare rt la lb))
           | label_desc \<Rightarrow> Fin (of_int (localeCompare rt lb la))
           | value_desc \<Rightarrow> num_sub vb va)))))"

text \<open>
  \<^verbatim>\<open>Array.prototype.sort\<close> is stable: an element moves behind another one only when
  the comparator is positive on the pair (a NaN result counts as zero). For a consistent
  comparator this fixes the result. A throw of the comparator ends the sort.
\<close>

fun is_positive :: "jsnum \<Rightarrow> bool" where
  "is_positive (Fin q) = (0 < q)"
| "is_positive PosInf = True"
| "is_positive _ = False"

fun sort_insert :: "('a \<Rightarrow> 'a \<Rightarrow> js_error + jsnum) \<Rightarrow> 'a \<Rightarrow> 'a list \<Rightarrow> js_error + 'a list" where
  "sort_insert cmp x [] = Inr [x]"
| "sort_insert cmp x (y # ys) =
    err_bind (cmp x y) (\<lambda>v.
      if is_positive v then err_bind (sort_insert cmp x ys) (\<lambda>zs. Inr (y # zs))
      else Inr (x # y # ys))"

fun Array_sort :: "('a \<Rightarrow> 'a \<Rightarrow> js_error + jsnum) \<Rightarrow> 'a list \<Rightarrow> js_error + 'a list" where
  "Array_sort cmp [] = Inr []"
| "Array_sort cmp (x # xs) = err_bind (Array_sort cmp xs) (sort_insert cmp x)"

definition sortRows :: "js_runtime \<Rightarrow> jsobj list \<Rightarrow> SortBy \<Rightarrow> js_error + jsobj list" where
  "sortRows rt rws sortBy = Array_sort (compareRows rt sortBy) rws"

section \<open>The Vega-Lite spec generator (vegaLiteFormatter.ts)\<close>

definition VEGA_LITE_SCHEMA :: string where
  "VEGA_LITE_SCHEMA = ''https://vega.github.io/schema/vega-lite/v5.json''"

text \<open>The coercion of one cell in \<^verbatim>\<open>normalizeRow\<close>; \<^verbatim>\<open>String(v)\<close> may throw.\<close>

definition coerce_cell :: "js_runtime \<Rightarrow> jsval \<Rightarrow> js_error + jsval" where
  "coerce_cell rt v =
    (if v = JNull \<or> v = JUndefined then Inr JNull
     else if isFiniteNumber v then Inr v
     else if isString v then Inr v
     else err_bind (js_String rt v) (\<lambda>s. Inr (JStr s)))"

text \<open>The loop \<^verbatim>\<open>for (const c of columns) { ... out[c] = ... }\<close> of \<^verbatim>\<open>normalizeRow\<close>.\<close>

fun normalizeRow_loop ::
    "js_runtime \<Rightarrow> jsobj \<Rightarrow> jsobj \<Rightarrow> string list \<Rightarrow> js_error + jsobj" where
  "normalizeRow_loop rt row out [] = Inr out"
| "normalizeRow_loop rt row out (c # cs) =
    err_bind (coerce_cell rt (obj_get row c)) (\<lambda>v.
      normalizeRow_loop rt row (obj_assign out c v) cs)"

definition normalizeRow ::
    "js_runtime \<Rightarrow> jsobj \<Rightarrow> string list \<Rightarrow> string \<Rightarrow> string \<Rightarrow> js_error + jsobj" where
  "normalizeRow rt row cols xk yk = normalizeRow_loop rt row [] cols"

text \<open>
  The options object. The chart type is the string met at run time (the switch has a
  default branch); an omitted or null key, limit, width or height is \<open>None\<close>.
\<close>

record VegaOptions =
  o_chartType :: string
  o_xKey :: "string option"
  o_yKey :: "string option"
  o_limit :: "int option"
  o_width :: "int option"
  o_height :: "int option"

record VegaLiteSpec =
  v_schema :: string
  v_data_values :: "jsobj list"
  v_width :: int
  v_height :: int
  v_mark :: jsval
  v_encoding :: "(string \<times> jsobj) list"

text \<open>\<^verbatim>\<open>rows.slice(0, limit)\<close> for an integer limit; a negative limit counts from the end.\<close>

definition slice0 :: "'a list \<Rightarrow> int \<Rightarrow> 'a list" where
  "slice0 xs k = (if k < 0 then take (nat (int (length xs) + k)) xs else take (nat k) xs)"

definition labelAngle_axis :: jsval where
  "labelAngle_axis = JObj [(''labelAngle'', JNum (Fin (- 25)))]"

definition sqlTableToVegaLiteSpec ::
    "js_runtime \<Rightarrow> NormalizedTable \<Rightarrow> VegaOptions \<Rightarrow> js_error + VegaLiteSpec option" where
  "sqlTableToVegaLiteSpec rt table options =
    (let cols = columns table;
         rws = rows table;
         lim = (case o_limit options of Some l \<Rightarrow> l | None \<Rightarrow> 100);
         w = (case o_width options of Some l \<Rightarrow> l | None \<Rightarrow> 400);
         h = (case o_height options of Some l \<Rightarrow> l | None \<Rightarrow> 320)
     in if length cols = 0 \<or> length rws = 0 then Inr None
        else
          let inferred = pickEncodingKeys cols rws;
              xo = (case o_xKey options of Some k \<Rightarrow> Some k | None \<Rightarrow> xKey inferred);
              yo = (case o_yKey options of Some k \<Rightarrow> Some k | None \<Rightarrow> yKey inferred)
          in if key_falsy xo \<or> key_falsy yo then Inr None
             else
               let xk = the xo;
                   yk = the yo;
                   sliced = slice0 rws lim
               in err_bind (map_err (\<lambda>r. normalizeRow rt r cols xk yk) sliced) (\<lambda>vals.
               let base = (\<lambda>m e. \<lparr>v_schema = VEGA_LITE_SCHEMA, v_data_values = vals,
                                   v_width = w, v_height = h, v_mark = m, v_encoding = e\<rparr>)
               in if o_chartType options = ''bar'' then
                    Inr (Some (base (JStr ''bar'')
                      [(''y'', [(''field'', JStr xk), (''type'', JStr ''nominal''),
                                (''sort'', JStr ''-x''), (''title'', JStr xk)]),
                       (''x'', [(''field'', JStr yk), (''type'', JStr ''quantitative''),
                                (''title'', JStr yk)])]))
                  else if o_chartType options = ''column'' then
                    Inr (Some (base (JStr ''bar'')
                      [(''x'', [(''field'', JStr xk), (''type'', JStr ''nominal''),
                                (''axis'', labelAngle_axis), (''title'', JStr xk)]),
                       (''y'', [(''field'', JStr yk), (''type'', JStr ''quantitative''),
                                (''title'', JStr yk)])]))
                  else if o_chartType options = ''line'' \<or> o_chartType options = ''point'' then
                    Inr (Some (base (JStr (o_chartType options))
                      [(''x'', [(''field'', JStr xk), (''type'', JStr ''nominal''),
                                (''axis'', labelAngle_axis), (''title'', JStr xk)]),
                       (''y'', [(''field'', JStr yk), (''type'', JStr ''quantitative''),
                                (''title'', JStr yk)])]))
                  else if o_chartType options = ''area'' then
                    Inr (Some (base (JStr ''area'')
                      [(''x'', [(''field'', JStr xk), (''type'', JStr ''nominal''),
                                (''axis'', labelAngle_axis), (''title'', JStr xk)]),
                       (''y'', [(''field'', JStr yk), (''type'', JStr ''quantitative''),
                                (''title'', JStr yk)])]))
                  else if o_chartType options = ''arc'' then
                    Inr (Some (base (JObj [(''type'', JStr ''arc''), (''innerRadius'', JNum (Fin 60))])
                      [(''theta'', [(''field'', JStr yk), (''type'', JStr ''quantitative'')]),
                       (''color'', [(''field'', JStr xk), (''type'', JStr ''nominal''),
                                    (''legend'', JObj [(''title'', JStr xk)])])]))
                  else
                    Inr (Some (base (JStr ''bar'')
                      [(''x'', [(''field'', JStr xk), (''type'', JStr ''nominal''),
                                (''title'', JStr xk)]),
                       (''y'', [(''field'', JStr yk), (''type'', JStr ''quantitative''),
                                (''title'', JStr yk)])]))))"

section \<open>Auxiliary notions used in the statements\<close>

text \<open>The finite number and the string that the comparator of \<^verbatim>\<open>sortRows\<close> reads off a row.\<close>

definition repValue :: "jsobj \<Rightarrow> rat" where
  "repValue r = (case getVal r of JNum (Fin q) \<Rightarrow> q | _ \<Rightarrow> 0)"

definition repLabel :: "jsobj \<Rightarrow> string" where
  "repLabel r = (case getLabel r of JStr s \<Rightarrow> s | _ \<Rightarrow> [])"

text \<open>The comparison key of a row under a sort order: its value or its label.\<close>

definition sortKey :: "SortBy \<Rightarrow> jsobj \<Rightarrow> rat + string" where
  "sortKey sortBy r =
    (case sortBy of
       value_desc \<Rightarrow> Inl (repValue r)
     | value_asc \<Rightarrow> Inl (repValue r)
     | label_asc \<Rightarrow> Inr (repLabel r)
     | label_desc \<Rightarrow> Inr (repLabel r))"

text \<open>
  The comparator of \<^verbatim>\<open>sortRows\<close> on the representative value and label, and the stable
  insertion sort by a comparator that cannot throw; \<^verbatim>\<open>sortRows\<close> is shown below to
  return the rows in this order.
\<close>

definition row_order :: "js_runtime \<Rightarrow> SortBy \<Rightarrow> jsobj \<Rightarrow> jsobj \<Rightarrow> jsnum" where
  "row_order rt sortBy a b =
    (case sortBy of
       value_asc \<Rightarrow> Fin (repValue a - repValue b)
     | label_asc \<Rightarrow> Fin (of_int (localeCompare rt (repLabel a) (repLabel b)))
     | label_desc \<Rightarrow> Fin (of_int (localeCompare rt (repLabel b) (repLabel a)))
     | value_desc \<Rightarrow> Fin (repValue b - repValue a))"

fun insert_by :: "('a \<Rightarrow> 'a \<Rightarrow> jsnum) \<Rightarrow> 'a \<Rightarrow> 'a list \<Rightarrow> 'a list" where
  "insert_by c x [] = [x]"
| "insert_by c x (y # ys) =
    (if is_positive (c x y) then y # insert_by c x ys else x # y # ys)"

definition sort_by :: "('a \<Rightarrow> 'a \<Rightarrow> jsnum) \<Rightarrow> 'a list \<Rightarrow> 'a list" where
  "sort_by c xs = foldr (insert_by c) xs []"

text \<open>
  The representative value in the words of the specification: the first finite number
  met when the row is read column by column, \<open>0\<close> when there is none.
\<close>

definition spec_representativeValue :: "string list \<Rightarrow> jsobj \<Rightarrow> jsval" where
  "spec_representativeValue cols r =
     find_or isFiniteNumber (map (obj_get r) cols) (JNum (Fin 0))"

text \<open>A spec with the \<^verbatim>\<open>axis\<close> entry removed from every channel of its encoding.\<close>

definition without_axis :: "VegaLiteSpec \<Rightarrow> VegaLiteSpec" where
  "without_axis s =
     s\<lparr>v_encoding := map (\<lambda>(ch, props). (ch, filter (\<lambda>(k, v). k \<noteq> ''axis'') props))
                          (v_encoding s)\<rparr>"

definition recognized_chartType :: "string \<Rightarrow> bool" where
  "recognized_chartType k =
     (k \<in> set [''bar'', ''column'', ''line'', ''point'', ''area'', ''arc''])"

text \<open>
  One runtime, for evaluating the functions on concrete inputs. Its parser rejects every
  text; \<^verbatim>\<open>String\<close> throws on an object with an own \<^verbatim>\<open>toString\<close> property (which in a
  JSON-shaped object is never a function) and gives \<^verbatim>\<open>[object Object]\<close> on any other
  object; \<^verbatim>\<open>Number\<close> gives NaN; strings are compared code unit by code unit; the
  prototypes of arrays, strings, numbers and booleans define \<^verbatim>\<open>constructor\<close> only; a
  spread accepts 65535 arguments.
\<close>

fun code_unit_compare :: "string \<Rightarrow> string \<Rightarrow> int" where
  "code_unit_compare [] [] = 0"
| "code_unit_compare [] (y # ys) = - 1"
| "code_unit_compare (x # xs) [] = 1"
| "code_unit_compare (x # xs) (y # ys) =
    (if (of_char x :: nat) < of_char y then - 1
     else if (of_char y :: nat) < of_char x then 1
     else code_unit_compare xs ys)"

definition sample_String :: "jsval \<Rightarrow> js_error + string" where
  "sample_String v =
    (case v of
       JObj obj \<Rightarrow> if ''toString'' \<in> set (map fst obj) then Inl TypeError
                   else Inr ''[object Object]''
     | _ \<Rightarrow> Inr [])"

definition sample_runtime :: js_runtime where
  "sample_runtime =
     \<lparr>JSON_parse = (\<lambda>s. Inl SyntaxError), StringOf = sample_String,
      NumberOf = (\<lambda>v. Inr NaN), localeCompare = code_unit_compare,
      proto_has = (\<lambda>p k. k = ''constructor''), BuiltinGet = (\<lambda>v k. JUndefined),
      spread_limit = 65535\<rparr>"

text \<open>
  Column classification: a column is numeric when some row holds a finite number in it,
  textual when some row holds a string in it. \<open>first_column_with P cols c\<close> says that
  \<open>c\<close> is the first column of \<open>cols\<close>, in order, that satisfies \<open>P\<close>.
\<close>

definition numeric_column :: "jsobj list \<Rightarrow> string \<Rightarrow> bool" where
  "numeric_column rws c = (\<exists>r \<in> set rws. \<exists>q. obj_get r c = JNum (Fin q))"

definition textual_column :: "jsobj list \<Rightarrow> string \<Rightarrow> bool" where
  "textual_column rws c = (\<exists>r \<in> set rws. \<exists>s. obj_get r c = JStr s)"

definition first_column_with :: "(string \<Rightarrow> bool) \<Rightarrow> string list \<Rightarrow> string \<Rightarrow> bool" where
  "first_column_with P cols c =
     (\<exists>i < length cols. cols ! i = c \<and> P c \<and> (\<forall>j < i. \<not> P (cols ! j)))"




text \<open>The number that a string of decimal digits denotes.\<close>

definition dec_value :: "string \<Rightarrow> nat" where
  "dec_value cs = foldl (\<lambda>a c. 10 * a + the (digit_of c)) 0 cs"



section \<open>Properties of the normalizer\<close>

lemma normalize_empty_array:
  "normalizeSqlResult rt (JArr []) = Inr (Some \<lparr>columns = [], rows = []\<rparr>)"
  by (simp add: normalizeSqlResult.simps)

lemma normalize_null: "normalizeSqlResult rt JNull = Inr None"
  by (simp add: normalizeSqlResult.simps)

lemma normalize_undefined: "normalizeSqlResult rt JUndefined = Inr None"
  by (simp add: normalizeSqlResult.simps)

lemma normalize_number: "normalizeSqlResult rt (JNum n) = Inr None"
  by (simp add: normalizeSqlResult.simps)

lemma normalize_boolean: "normalizeSqlResult rt (JBool b) = Inr None"
  by (simp add: normalizeSqlResult.simps)

text \<open>
  Claim C4. An empty array normalizes to the valid empty table
  \<^verbatim>\<open>{columns: [], rows: []}\<close>, whatever the runtime; \<^verbatim>\<open>null\<close>, every number and
  every boolean normalize to \<^verbatim>\<open>null\<close>; and the result for the empty array differs from
  the result for each of them.
\<close>

theorem C4_empty_array_vs_unsupported:
  "normalizeSqlResult rt (JArr []) = Inr (Some \<lparr>columns = [], rows = []\<rparr>)
   \<and> normalizeSqlResult rt JNull = Inr None
   \<and> normalizeSqlResult rt (JNum n) = Inr None
   \<and> normalizeSqlResult rt (JBool b) = Inr None
   \<and> normalizeSqlResult rt (JArr []) \<noteq> normalizeSqlResult rt JNull
   \<and> normalizeSqlResult rt (JArr []) \<noteq> normalizeSqlResult rt (JNum n)
   \<and> normalizeSqlResult rt (JArr []) \<noteq> normalizeSqlResult rt (JBool b)"
  by (simp add: normalize_empty_array normalize_null normalize_number normalize_boolean)

text \<open>
  Claim C3. The claim is that normalization never throws on a JSON-shaped input. On the
  array \<^verbatim>\<open>[{"a": 1}, null]\<close> the first element is a plain object, so the record-array
  branch runs \<^verbatim>\<open>unionObjectKeys\<close>, whose \<^verbatim>\<open>Object.keys(null)\<close> throws a TypeError
  that nothing catches.
\<close>

theorem C3_null_element_throws:
  "normalizeSqlResult rt (JArr [JObj [(''a'', JNum (Fin 1))], JNull]) = Inl TypeError"
  by (simp add: normalizeSqlResult.simps array_table_def unionObjectKeys_def Object_keys_def
        set_add_def)

section \<open>Properties of the encoding selection\<close>

lemma isFiniteNumber_iff: "isFiniteNumber v \<longleftrightarrow> (\<exists>q. v = JNum (Fin q))"
  by (cases v rule: isFiniteNumber.cases) simp_all

lemma isString_iff: "isString v \<longleftrightarrow> (\<exists>s. v = JStr s)"
  by (cases v) simp_all

lemma first_or_null_filter: "first_or_null (filter P xs) = find P xs"
  by (induction xs) (simp_all add: first_or_null_def)

lemma find_first_column:
  "find P cols = Some c \<longleftrightarrow> first_column_with P cols c"
  unfolding first_column_with_def find_Some_iff by auto

lemma numeric_column_code:
  "list_ex (\<lambda>r. isFiniteNumber (obj_get r c)) rws = numeric_column rws c"
  by (simp add: numeric_column_def list_ex_iff isFiniteNumber_iff)

lemma textual_column_code:
  "list_ex (\<lambda>r. isString (obj_get r c)) rws = textual_column rws c"
  by (simp add: textual_column_def list_ex_iff isString_iff)

lemma pickEncodingKeys_nonempty:
  "cols \<noteq> [] \<Longrightarrow> rws \<noteq> [] \<Longrightarrow>
   pickEncodingKeys cols rws =
     \<lparr>xKey = (case find (textual_column rws) cols of Some c \<Rightarrow> Some c | None \<Rightarrow> Some (hd cols)),
      yKey = find (numeric_column rws) cols\<rparr>"
proof -
  assume ne: "cols \<noteq> []" "rws \<noteq> []"
  have hd: "first_or_null cols = Some (hd cols)"
    using ne by (cases cols) (simp_all add: first_or_null_def)
  show ?thesis
    using ne
    by (simp add: pickEncodingKeys_def Let_def first_or_null_filter numeric_column_code
        textual_column_code hd split: option.splits)
qed

lemma err_bind_Inr_iff:
  "err_bind m f = Inr y \<longleftrightarrow> (\<exists>x. m = Inr x \<and> f x = Inr y)"
  by (cases m) (simp_all add: err_bind_def)

lemma err_bind_Inr [simp]: "err_bind (Inr x) f = f x"
  by (simp add: err_bind_def)

lemma err_bind_Inl [simp]: "err_bind (Inl e) f = Inl e"
  by (simp add: err_bind_def)

lemma map_err_total:
  "(\<And>x. x \<in> set xs \<Longrightarrow> \<exists>y. f x = Inr y) \<Longrightarrow> \<exists>ys. map_err f xs = Inr ys"
proof (induction xs)
  case Nil
  show ?case by simp
next
  case (Cons x xs)
  from Cons.prems obtain y where y: "f x = Inr y" by auto
  from Cons obtain ys where "map_err f xs = Inr ys" by auto
  with y show ?case by simp
qed

lemma pickChart_keys:
  assumes "pickChart rt cols rws = Inr p"
  shows "xKey p = xKey (pickEncodingKeys cols rws)"
    and "yKey p = yKey (pickEncodingKeys cols rws)"
  using assms
  by (auto simp: pickChart_def pickEncodingKeys_def Let_def err_bind_Inr_iff split: if_splits)

lemma js_String_total: "\<forall>v. \<exists>s. StringOf rt v = Inr s \<Longrightarrow> \<exists>s. js_String rt v = Inr s"
  by (cases v) (simp_all add: js_String_def)

lemma js_Number_total: "\<forall>v. \<exists>n. NumberOf rt v = Inr n \<Longrightarrow> \<exists>n. js_Number rt v = Inr n"
  by (cases v) (simp_all add: js_Number_def)

lemma chart_entry_total:
  assumes "\<forall>v. \<exists>s. StringOf rt v = Inr s" and "\<forall>v. \<exists>n. NumberOf rt v = Inr n"
  shows "\<exists>e. chart_entry rt xk yk r = Inr e"
proof -
  from js_String_total [OF assms(1)] obtain s
    where s: "js_String rt (nullish (obj_get r xk) (JStr [])) = Inr s" by blast
  from js_Number_total [OF assms(2)] obtain n
    where n: "js_Number rt (obj_get r yk) = Inr n" by blast
  show ?thesis by (simp add: chart_entry_def s n)
qed

lemma pickChart_total:
  assumes "\<forall>v. \<exists>s. StringOf rt v = Inr s" and "\<forall>v. \<exists>n. NumberOf rt v = Inr n"
  shows "\<exists>p. pickChart rt cols rws = Inr p"
proof -
  have "\<exists>cd. map_err (chart_entry rt xk yk) (take 30 rws) = Inr cd" for xk yk
    by (rule map_err_total) (rule chart_entry_total [OF assms])
  then show ?thesis
    by (auto simp: pickChart_def Let_def err_bind_Inr_iff)
qed

lemmas js_eval = obj_define_def obj_assign_def obj_get_def array_index_def digit_of_def
  digit_char_def build_row_def build_row_idx_def Object_keys_def Object_values_def
  Object_prototype_get_def Object_prototype_methods_def

text \<open>
  Claim C2. On every pair of columns and rows on which \<^verbatim>\<open>pickChart\<close> (chart-rendering
  descriptor) returns, it returns the category key and the value key that
  \<^verbatim>\<open>pickEncodingKeys\<close> (declarative spec) returns. Both selections are functions of the
  columns and rows alone: the keys of \<^verbatim>\<open>pickChart\<close> do not depend on the runtime
  either. \<^verbatim>\<open>pickChart\<close> returns whenever \<^verbatim>\<open>String\<close> and \<^verbatim>\<open>Number\<close> do not throw; a
  throw of one of them while the chart data is built is the only way it does not.
\<close>

theorem C2_same_keys:
  "(pickChart rt cols rws = Inr p \<longrightarrow>
      xKey p = xKey (pickEncodingKeys cols rws) \<and> yKey p = yKey (pickEncodingKeys cols rws))
   \<and> (pickChart rt cols rws = Inr p \<and> pickChart rt' cols rws = Inr p' \<longrightarrow>
      xKey p = xKey p' \<and> yKey p = yKey p')
   \<and> ((\<forall>v. \<exists>s. StringOf rt v = Inr s) \<and> (\<forall>v. \<exists>n. NumberOf rt v = Inr n) \<longrightarrow>
      (\<exists>q. pickChart rt cols rws = Inr q))"
proof (intro conjI impI)
  assume "pickChart rt cols rws = Inr p"
  then show "xKey p = xKey (pickEncodingKeys cols rws)" "yKey p = yKey (pickEncodingKeys cols rws)"
    by (rule pickChart_keys)+
next
  assume "pickChart rt cols rws = Inr p \<and> pickChart rt' cols rws = Inr p'"
  then have a: "pickChart rt cols rws = Inr p" and b: "pickChart rt' cols rws = Inr p'"
    by simp_all
  show "xKey p = xKey p'" "yKey p = yKey p'"
    by (simp_all add: pickChart_keys [OF a] pickChart_keys [OF b])
next
  assume "(\<forall>v. \<exists>s. StringOf rt v = Inr s) \<and> (\<forall>v. \<exists>n. NumberOf rt v = Inr n)"
  then show "\<exists>q. pickChart rt cols rws = Inr q" by (simp add: pickChart_total)
qed

theorem C2_same_keys_witness:
  "pickChart sample_runtime [''n'', ''m''] [[(''n'', JStr ''a''), (''m'', JNum (Fin 2))]]
     = Inr \<lparr>xKey = Some ''n'', yKey = Some ''m'',
            chartData = [[(''n'', JStr ''a''), (''m'', JNum (Fin 2))]]\<rparr>
   \<and> xKey (pickEncodingKeys [''n'', ''m''] [[(''n'', JStr ''a''), (''m'', JNum (Fin 2))]])
     = Some ''n''
   \<and> yKey (pickEncodingKeys [''n'', ''m''] [[(''n'', JStr ''a''), (''m'', JNum (Fin 2))]])
     = Some ''m''
   \<and> pickChart sample_runtime [''n'', ''m'']
        [[(''n'', JObj [(''toString'', JNum (Fin 1))]), (''m'', JNum (Fin 2))]]
     = Inl TypeError"
proof -
  let ?cols = "[''n'', ''m'']"
  let ?rws = "[[(''n'', JStr ''a''), (''m'', JNum (Fin 2))]]"
  let ?p = "\<lparr>xKey = Some ''n'', yKey = Some ''m'',
            chartData = [[(''n'', JStr ''a''), (''m'', JNum (Fin 2))]]\<rparr>"
  have r: "pickChart sample_runtime ?cols ?rws = Inr ?p"
    by (simp add: pickChart_def first_or_null_def key_falsy_def chart_entry_def nullish_def
          js_String_def js_Number_def js_eval)
  have t: "pickChart sample_runtime ?cols
        [[(''n'', JObj [(''toString'', JNum (Fin 1))]), (''m'', JNum (Fin 2))]] = Inl TypeError"
    by (simp add: pickChart_def first_or_null_def key_falsy_def chart_entry_def nullish_def
          js_String_def js_Number_def sample_runtime_def sample_String_def js_eval)
  from C2_same_keys [of sample_runtime ?cols ?rws ?p sample_runtime ?p] r
  have "xKey ?p = xKey (pickEncodingKeys ?cols ?rws) \<and> yKey ?p = yKey (pickEncodingKeys ?cols ?rws)"
    by blast
  with r t show ?thesis by simp
qed

text \<open>
  Claim C10. With at least one column and at least one row, the category key returned by
  \<^verbatim>\<open>pickEncodingKeys\<close> is not null, and neither is the one returned by \<^verbatim>\<open>pickChart\<close>
  whenever it returns; the value key can still be null.
\<close>

theorem C10_category_key_not_null:
  "cols \<noteq> [] \<Longrightarrow> rws \<noteq> [] \<Longrightarrow>
     xKey (pickEncodingKeys cols rws) \<noteq> None
     \<and> (\<forall>p. pickChart rt cols rws = Inr p \<longrightarrow> xKey p \<noteq> None)"
proof -
  assume ne: "cols \<noteq> []" "rws \<noteq> []"
  then have k: "xKey (pickEncodingKeys cols rws) \<noteq> None"
    by (cases cols) (simp_all add: pickEncodingKeys_def Let_def first_or_null_def
        split: option.splits list.splits)
  then show ?thesis by (simp add: pickChart_keys)
qed

theorem C10_category_key_not_null_witness:
  "xKey (pickEncodingKeys [''a''] [[(''a'', JNull)]]) = Some ''a''
   \<and> yKey (pickEncodingKeys [''a''] [[(''a'', JNull)]]) = None
   \<and> pickChart sample_runtime [''a''] [[(''a'', JNull)]]
       = Inr \<lparr>xKey = Some ''a'', yKey = None, chartData = []\<rparr>"
proof -
  have r: "pickChart sample_runtime [''a''] [[(''a'', JNull)]]
       = Inr \<lparr>xKey = Some ''a'', yKey = None, chartData = []\<rparr>"
    by (simp add: pickChart_def first_or_null_def key_falsy_def js_eval)
  have e: "xKey (pickEncodingKeys [''a''] [[(''a'', JNull)]]) = Some ''a''"
          "yKey (pickEncodingKeys [''a''] [[(''a'', JNull)]]) = None"
    by (simp_all add: pickEncodingKeys_def first_or_null_def js_eval)
  have ne: "[''a''] \<noteq> []" "[[(''a'', JNull)]] \<noteq> ([] :: jsobj list)" by simp_all
  from C10_category_key_not_null [OF ne, of sample_runtime] r e show ?thesis by simp
qed

text \<open>
  Claim C5. With no column or no row, both keys are null, in \<^verbatim>\<open>pickEncodingKeys\<close> and in
  \<^verbatim>\<open>pickChart\<close>, which returns. Otherwise the value key is the first column, in the order
  of \<open>cols\<close>, that holds a finite number in some row (null exactly when there is no such
  column); the category key is the first column that holds a string in some row; and when
  no column holds a string the category key is the first column, whether or not it is also
  the value column. Whenever \<^verbatim>\<open>pickChart\<close> returns, it returns the same two keys.
\<close>

theorem C5_encoding_selection:
  "(cols = [] \<or> rws = [] \<longrightarrow>
      xKey (pickEncodingKeys cols rws) = None \<and> yKey (pickEncodingKeys cols rws) = None
      \<and> pickChart rt cols rws = Inr \<lparr>xKey = None, yKey = None, chartData = []\<rparr>)
   \<and> (cols \<noteq> [] \<and> rws \<noteq> [] \<longrightarrow>
        (\<forall>c. yKey (pickEncodingKeys cols rws) = Some c
               \<longleftrightarrow> first_column_with (numeric_column rws) cols c)
      \<and> (yKey (pickEncodingKeys cols rws) = None
               \<longleftrightarrow> (\<forall>c \<in> set cols. \<not> numeric_column rws c))
      \<and> ((\<exists>c \<in> set cols. textual_column rws c) \<longrightarrow>
            (\<forall>c. xKey (pickEncodingKeys cols rws) = Some c
               \<longleftrightarrow> first_column_with (textual_column rws) cols c))
      \<and> ((\<forall>c \<in> set cols. \<not> textual_column rws c) \<longrightarrow>
            xKey (pickEncodingKeys cols rws) = Some (cols ! 0))
      \<and> (\<forall>p. pickChart rt cols rws = Inr p \<longrightarrow>
            xKey p = xKey (pickEncodingKeys cols rws)
            \<and> yKey p = yKey (pickEncodingKeys cols rws)))"
proof (intro conjI impI)
  assume "cols = [] \<or> rws = []"
  then show "xKey (pickEncodingKeys cols rws) = None" "yKey (pickEncodingKeys cols rws) = None"
    "pickChart rt cols rws = Inr \<lparr>xKey = None, yKey = None, chartData = []\<rparr>"
    by (auto simp: pickEncodingKeys_def pickChart_def)
next
  assume ne: "cols \<noteq> [] \<and> rws \<noteq> []"
  then have eq: "pickEncodingKeys cols rws =
     \<lparr>xKey = (case find (textual_column rws) cols of Some c \<Rightarrow> Some c | None \<Rightarrow> Some (hd cols)),
      yKey = find (numeric_column rws) cols\<rparr>"
    by (simp add: pickEncodingKeys_nonempty)
  show "\<forall>c. yKey (pickEncodingKeys cols rws) = Some c
               \<longleftrightarrow> first_column_with (numeric_column rws) cols c"
    by (simp add: eq find_first_column)
  show "yKey (pickEncodingKeys cols rws) = None
               \<longleftrightarrow> (\<forall>c \<in> set cols. \<not> numeric_column rws c)"
    by (auto simp: eq find_None_iff)
  show "\<forall>c. xKey (pickEncodingKeys cols rws) = Some c
               \<longleftrightarrow> first_column_with (textual_column rws) cols c"
    if "\<exists>c \<in> set cols. textual_column rws c"
  proof -
    from that obtain d where "find (textual_column rws) cols = Some d"
      by (cases "find (textual_column rws) cols") (auto simp: find_None_iff)
    then show ?thesis by (simp add: eq flip: find_first_column)
  qed
  show "xKey (pickEncodingKeys cols rws) = Some (cols ! 0)"
    if "\<forall>c \<in> set cols. \<not> textual_column rws c"
  proof -
    from that have "find (textual_column rws) cols = None" by (simp add: find_None_iff)
    with ne show ?thesis by (simp add: eq hd_conv_nth)
  qed
  show "\<forall>p. pickChart rt cols rws = Inr p \<longrightarrow>
            xKey p = xKey (pickEncodingKeys cols rws)
            \<and> yKey p = yKey (pickEncodingKeys cols rws)"
    by (simp add: pickChart_keys)
qed

theorem C5_encoding_selection_witness:
  "xKey (pickEncodingKeys [''n'', ''m''] [[(''n'', JNull), (''m'', JNum (Fin 2))]]) = Some ''n''
   \<and> yKey (pickEncodingKeys [''n'', ''m''] [[(''n'', JNull), (''m'', JNum (Fin 2))]]) = Some ''m''
   \<and> xKey (pickEncodingKeys [] [[(''n'', JNull)]]) = None
   \<and> pickChart sample_runtime [''n'', ''m''] [[(''n'', JNull), (''m'', JNum (Fin 2))]]
       = Inr \<lparr>xKey = Some ''n'', yKey = Some ''m'',
              chartData = [[(''n'', JStr []), (''m'', JNum (Fin 2))]]\<rparr>"
proof -
  let ?cols = "[''n'', ''m'']"
  let ?rws = "[[(''n'', JNull), (''m'', JNum (Fin 2))]]"
  have ne: "?cols \<noteq> [] \<and> ?rws \<noteq> []" by simp
  have nt: "\<forall>c \<in> set ?cols. \<not> textual_column ?rws c"
    by (simp add: textual_column_def js_eval)
  have fc: "first_column_with (numeric_column ?rws) ?cols ''m''"
    unfolding first_column_with_def
    by (rule exI [of _ 1]) (simp add: numeric_column_def js_eval)
  have e: "[] = [] \<or> [[(''n'', JNull)]] = ([] :: jsobj list)" by simp
  have r: "pickChart sample_runtime ?cols ?rws
       = Inr \<lparr>xKey = Some ''n'', yKey = Some ''m'',
              chartData = [[(''n'', JStr []), (''m'', JNum (Fin 2))]]\<rparr>"
    by (simp add: pickChart_def first_or_null_def key_falsy_def chart_entry_def nullish_def
          js_String_def js_Number_def js_eval)
  from C5_encoding_selection [of ?cols ?rws sample_runtime] ne nt
  have x: "xKey (pickEncodingKeys ?cols ?rws) = Some (?cols ! 0)" by blast
  from C5_encoding_selection [of ?cols ?rws sample_runtime] ne fc
  have y: "yKey (pickEncodingKeys ?cols ?rws) = Some ''m''" by blast
  from C5_encoding_selection [of "[]" "[[(''n'', JNull)]]" sample_runtime] e
  have z: "xKey (pickEncodingKeys [] [[(''n'', JNull)]]) = None" by blast
  from x y z r show ?thesis by simp
qed

section \<open>Properties of the Vega-Lite spec generator\<close>

text \<open>
  Claim C9 says that an unrecognized chart kind gives exactly the spec of kind
  \<^verbatim>\<open>column\<close>. On a table with one row the two specs differ: the \<^verbatim>\<open>column\<close> branch puts
  \<^verbatim>\<open>axis: { labelAngle: -25 }\<close> on the x channel, the default branch does not.
\<close>

theorem C9_default_differs_from_column:
  "sqlTableToVegaLiteSpec sample_runtime
     \<lparr>columns = [''k'', ''v''], rows = [[(''k'', JStr ''a''), (''v'', JNum (Fin 1))]]\<rparr>
     \<lparr>o_chartType = ''scatter'', o_xKey = None, o_yKey = None, o_limit = None,
      o_width = None, o_height = None\<rparr>
   \<noteq> sqlTableToVegaLiteSpec sample_runtime
     \<lparr>columns = [''k'', ''v''], rows = [[(''k'', JStr ''a''), (''v'', JNum (Fin 1))]]\<rparr>
     \<lparr>o_chartType = ''column'', o_xKey = None, o_yKey = None, o_limit = None,
      o_width = None, o_height = None\<rparr>"
  by (simp add: sqlTableToVegaLiteSpec_def Let_def pickEncodingKeys_def first_or_null_def
        key_falsy_def slice0_def normalizeRow_def coerce_cell_def js_eval)

text \<open>
  Claim C9, amended. For every runtime, table and options whose chart kind is none of
  \<^verbatim>\<open>bar\<close>, \<^verbatim>\<open>column\<close>, \<^verbatim>\<open>line\<close>, \<^verbatim>\<open>point\<close>, \<^verbatim>\<open>area\<close>, \<^verbatim>\<open>arc\<close>, the generator
  returns the spec it returns for kind \<^verbatim>\<open>column\<close> on the same inputs with the
  \<^verbatim>\<open>axis\<close> entry left out of the encoding; it returns null exactly when that one is
  null, and throws exactly when that one throws.
\<close>

theorem C9_default_is_column_without_axis:
  "\<not> recognized_chartType (o_chartType options) \<Longrightarrow>
   sqlTableToVegaLiteSpec rt table options =
     map_sum id (map_option without_axis)
       (sqlTableToVegaLiteSpec rt table (options\<lparr>o_chartType := ''column''\<rparr>))"
  by (simp add: sqlTableToVegaLiteSpec_def recognized_chartType_def Let_def without_axis_def
        err_bind_def split: sum.splits)

theorem C9_default_is_column_without_axis_witness:
  "sqlTableToVegaLiteSpec sample_runtime
       \<lparr>columns = [''k'', ''v''], rows = [[(''k'', JStr ''a''), (''v'', JNum (Fin 1))]]\<rparr>
       \<lparr>o_chartType = ''scatter'', o_xKey = None, o_yKey = None, o_limit = None,
        o_width = None, o_height = None\<rparr>
     = map_sum id (map_option without_axis)
        (sqlTableToVegaLiteSpec sample_runtime
          \<lparr>columns = [''k'', ''v''], rows = [[(''k'', JStr ''a''), (''v'', JNum (Fin 1))]]\<rparr>
          \<lparr>o_chartType = ''column'', o_xKey = None, o_yKey = None, o_limit = None,
           o_width = None, o_height = None\<rparr>)
   \<and> sqlTableToVegaLiteSpec sample_runtime
       \<lparr>columns = [''k'', ''v''], rows = [[(''k'', JStr ''a''), (''v'', JNum (Fin 1))]]\<rparr>
       \<lparr>o_chartType = ''scatter'', o_xKey = None, o_yKey = None, o_limit = None,
        o_width = None, o_height = None\<rparr>
     = Inr (Some \<lparr>v_schema = VEGA_LITE_SCHEMA,
                   v_data_values = [[(''k'', JStr ''a''), (''v'', JNum (Fin 1))]],
                   v_width = 400, v_height = 320, v_mark = JStr ''bar'',
                   v_encoding =
                     [(''x'', [(''field'', JStr ''k''), (''type'', JStr ''nominal''),
                               (''title'', JStr ''k'')]),
                      (''y'', [(''field'', JStr ''v''), (''type'', JStr ''quantitative''),
                               (''title'', JStr ''v'')])]\<rparr>)"
proof -
  have h: "\<not> recognized_chartType ''scatter''" by (simp add: recognized_chartType_def)
  have v: "sqlTableToVegaLiteSpec sample_runtime
       \<lparr>columns = [''k'', ''v''], rows = [[(''k'', JStr ''a''), (''v'', JNum (Fin 1))]]\<rparr>
       \<lparr>o_chartType = ''scatter'', o_xKey = None, o_yKey = None, o_limit = None,
        o_width = None, o_height = None\<rparr>
     = Inr (Some \<lparr>v_schema = VEGA_LITE_SCHEMA,
                   v_data_values = [[(''k'', JStr ''a''), (''v'', JNum (Fin 1))]],
                   v_width = 400, v_height = 320, v_mark = JStr ''bar'',
                   v_encoding =
                     [(''x'', [(''field'', JStr ''k''), (''type'', JStr ''nominal''),
                               (''title'', JStr ''k'')]),
                      (''y'', [(''field'', JStr ''v''), (''type'', JStr ''quantitative''),
                               (''title'', JStr ''v'')])]\<rparr>)"
    by (simp add: sqlTableToVegaLiteSpec_def Let_def pickEncodingKeys_def first_or_null_def
        key_falsy_def slice0_def normalizeRow_def coerce_cell_def js_eval)
  from C9_default_is_column_without_axis
         [of "\<lparr>o_chartType = ''scatter'', o_xKey = None, o_yKey = None, o_limit = None,
               o_width = None, o_height = None\<rparr>" sample_runtime
             "\<lparr>columns = [''k'', ''v''], rows = [[(''k'', JStr ''a''), (''v'', JNum (Fin 1))]]\<rparr>"]
       h
  have "sqlTableToVegaLiteSpec sample_runtime
       \<lparr>columns = [''k'', ''v''], rows = [[(''k'', JStr ''a''), (''v'', JNum (Fin 1))]]\<rparr>
       \<lparr>o_chartType = ''scatter'', o_xKey = None, o_yKey = None, o_limit = None,
        o_width = None, o_height = None\<rparr>
     = map_sum id (map_option without_axis)
        (sqlTableToVegaLiteSpec sample_runtime
          \<lparr>columns = [''k'', ''v''], rows = [[(''k'', JStr ''a''), (''v'', JNum (Fin 1))]]\<rparr>
          \<lparr>o_chartType = ''column'', o_xKey = None, o_yKey = None, o_limit = None,
           o_width = None, o_height = None\<rparr>)"
    by simp
  with v show ?thesis by (simp only: simp_thms)
qed

section \<open>Encoded strings\<close>

lemma indexOf_first:
  "indexOf s c = Some i \<longleftrightarrow> (i < length s \<and> s ! i = c \<and> (\<forall>j < i. s ! j \<noteq> c))"
proof (induction s arbitrary: i)
  case Nil
  then show ?case by simp
next
  case (Cons x xs)
  show ?case
  proof (cases "x = c")
    case True
    then show ?thesis by (cases i) auto
  next
    case False
    show ?thesis
    proof (cases i)
      case 0
      with False show ?thesis by auto
    next
      case (Suc k)
      have "(\<forall>j < Suc k. (x # xs) ! j \<noteq> c) \<longleftrightarrow> (\<forall>j < k. xs ! j \<noteq> c)"
        using False by (auto simp: less_Suc_eq_0_disj)
      with False Suc Cons.IH [of k] show ?thesis by auto
    qed
  qed
qed

lemma indexOf_None: "indexOf s c = None \<longleftrightarrow> c \<notin> set s"
  by (induction s) auto

lemma normalize_string:
  "normalizeSqlResult rt (JStr s) =
    (case indexOf s CHR ''['' of
       None \<Rightarrow> Inr None
     | Some start \<Rightarrow>
        (case JSON_parse rt (drop start s) of
           Inl e \<Rightarrow> Inr None
         | Inr v \<Rightarrow> if isArray v then normalizeSqlResult rt (JArr (array_elems v))
                    else Inr None))"
proof (cases "s = []")
  case True
  then show ?thesis by (simp add: normalizeSqlResult.simps)
next
  case False
  then show ?thesis
    by (subst normalizeSqlResult.simps)
       (simp add: tryParseJsonArray_def split: option.splits sum.splits)
qed

lemma normalize_scalar_array:
  "\<not> isPlainObject x \<Longrightarrow> \<not> isArray x \<Longrightarrow> normalizeSqlResult rt (JArr (x # xs)) = Inr None"
  by (simp add: normalizeSqlResult.simps array_table_def)

text \<open>
  Claim C8. For every string: without a \<^verbatim>\<open>[\<close> the result is null; otherwise, with
  \<open>i\<close> the position of the first \<^verbatim>\<open>[\<close>, the text from \<open>i\<close> on is handed to
  \<^verbatim>\<open>JSON.parse\<close>, and the result is null when the parse throws, null when it returns
  something that is not an array, and the normalization of the parsed array otherwise. The
  input \<^verbatim>\<open>"prefix [1,2,3] suffix"\<close> yields null: \<^verbatim>\<open>JSON.parse\<close> is given
  \<^verbatim>\<open>"[1,2,3] suffix"\<close>, and the result is null when it rejects that text (trailing
  characters), as it would be had it returned the array \<^verbatim>\<open>[1,2,3]\<close>.
\<close>

theorem C8_encoded_string:
  "(CHR ''['' \<notin> set s \<longrightarrow> normalizeSqlResult rt (JStr s) = Inr None)
   \<and> (\<forall>i. i < length s \<and> s ! i = CHR ''['' \<and> (\<forall>j < i. s ! j \<noteq> CHR ''['') \<longrightarrow>
         (\<forall>e. JSON_parse rt (drop i s) = Inl e \<longrightarrow> normalizeSqlResult rt (JStr s) = Inr None)
       \<and> (\<forall>v. JSON_parse rt (drop i s) = Inr v \<and> \<not> isArray v \<longrightarrow>
                normalizeSqlResult rt (JStr s) = Inr None)
       \<and> (\<forall>xs. JSON_parse rt (drop i s) = Inr (JArr xs) \<longrightarrow>
                normalizeSqlResult rt (JStr s) = normalizeSqlResult rt (JArr xs)))
   \<and> ((\<exists>e. JSON_parse rt ''[1,2,3] suffix'' = Inl e)
        \<or> JSON_parse rt ''[1,2,3] suffix'' = Inr (JArr [JNum (Fin 1), JNum (Fin 2), JNum (Fin 3)])
       \<longrightarrow> normalizeSqlResult rt (JStr ''prefix [1,2,3] suffix'') = Inr None)"
proof (intro conjI impI allI)
  assume "CHR ''['' \<notin> set s"
  then have "indexOf s CHR ''['' = None" by (simp add: indexOf_None)
  then show "normalizeSqlResult rt (JStr s) = Inr None" by (simp add: normalize_string)
next
  fix i
  assume "i < length s \<and> s ! i = CHR ''['' \<and> (\<forall>j < i. s ! j \<noteq> CHR ''['')"
  then have ix: "indexOf s CHR ''['' = Some i" by (simp add: indexOf_first)
  show "normalizeSqlResult rt (JStr s) = Inr None" if "JSON_parse rt (drop i s) = Inl e" for e
    using that ix by (simp add: normalize_string)
  show "normalizeSqlResult rt (JStr s) = Inr None"
    if "JSON_parse rt (drop i s) = Inr v \<and> \<not> isArray v" for v
    using that ix by (simp add: normalize_string)
  show "normalizeSqlResult rt (JStr s) = normalizeSqlResult rt (JArr xs)"
    if "JSON_parse rt (drop i s) = Inr (JArr xs)" for xs
    using that ix by (simp add: normalize_string)
next
  assume "(\<exists>e. JSON_parse rt ''[1,2,3] suffix'' = Inl e)
        \<or> JSON_parse rt ''[1,2,3] suffix'' = Inr (JArr [JNum (Fin 1), JNum (Fin 2), JNum (Fin 3)])"
  then show "normalizeSqlResult rt (JStr ''prefix [1,2,3] suffix'') = Inr None"
    by (auto simp add: normalize_string normalize_scalar_array)
qed

theorem C8_encoded_string_witness:
  "(\<exists>e. JSON_parse sample_runtime ''[1,2,3] suffix'' = Inl e)
   \<and> normalizeSqlResult sample_runtime (JStr ''prefix [1,2,3] suffix'') = Inr None
   \<and> CHR ''['' \<notin> set ''no array here''
   \<and> normalizeSqlResult sample_runtime (JStr ''no array here'') = Inr None
   \<and> ''x[]'' ! 1 = CHR ''[''
   \<and> normalizeSqlResult (sample_runtime\<lparr>JSON_parse := \<lambda>s. Inr (JArr [])\<rparr>) (JStr ''x[]'')
       = Inr (Some \<lparr>columns = [], rows = []\<rparr>)"
proof -
  let ?rt = "sample_runtime\<lparr>JSON_parse := \<lambda>s. Inr (JArr [])\<rparr>"
  have p: "\<exists>e. JSON_parse sample_runtime ''[1,2,3] suffix'' = Inl e"
    by (simp add: sample_runtime_def)
  have n: "CHR ''['' \<notin> set ''no array here''" by simp
  have f: "1 < length ''x[]'' \<and> ''x[]'' ! 1 = CHR ''['' \<and> (\<forall>j < 1. ''x[]'' ! j \<noteq> CHR ''['')"
    by simp
  have q: "JSON_parse ?rt (drop 1 ''x[]'') = Inr (JArr [])" by simp
  from C8_encoded_string [of "''no array here''" sample_runtime] p n
  have a: "normalizeSqlResult sample_runtime (JStr ''prefix [1,2,3] suffix'') = Inr None"
    and b: "normalizeSqlResult sample_runtime (JStr ''no array here'') = Inr None"
    by blast+
  from C8_encoded_string [of "''x[]''" ?rt] f q
  have "normalizeSqlResult ?rt (JStr ''x[]'') = normalizeSqlResult ?rt (JArr [])"
    by blast
  then have c: "normalizeSqlResult ?rt (JStr ''x[]'') = Inr (Some \<lparr>columns = [], rows = []\<rparr>)"
    by (simp add: normalize_empty_array)
  from p a n b f c show ?thesis by simp
qed

section \<open>Building rows\<close>


lemma map_of_insert_index:
  "k \<notin> set (map fst obj) \<Longrightarrow> map_of (insert_index n k v obj) x = ((map_of obj)(k \<mapsto> v)) x"
proof (induction obj)
  case Nil
  show ?case by simp
next
  case (Cons p obj)
  obtain k' v' where p: "p = (k', v')" by (cases p)
  from Cons.prems have ne: "k \<noteq> k'" and notin: "k \<notin> set (map fst obj)" by (simp_all add: p)
  show ?case
  proof (cases "array_index k'")
    case None
    then show ?thesis by (simp add: p)
  next
    case (Some m)
    show ?thesis
    proof (cases "m < n")
      case True
      with Some Cons.IH [OF notin] ne show ?thesis by (auto simp: p)
    next
      case False
      with Some show ?thesis by (simp add: p)
    qed
  qed
qed

lemma map_of_update_all:
  "map_of (map (\<lambda>p. if fst p = k then (fst p, v) else p) obj) x =
     (if x = k then (if k \<in> set (map fst obj) then Some v else None) else map_of obj x)"
proof (induction obj)
  case Nil
  show ?case by simp
next
  case (Cons p obj)
  obtain k' v' where p: "p = (k', v')" by (cases p)
  show ?case
  proof (cases "k' = k")
    case True
    with Cons.IH show ?thesis by (auto simp: p)
  next
    case False
    with Cons.IH show ?thesis by (force simp: p)
  qed
qed


lemma obj_define_alt:
  "obj_define obj k v =
    (if k \<in> set (map fst obj)
     then map (\<lambda>p. if fst p = k then (fst p, v) else p) obj
     else case array_index k of
            Some n \<Rightarrow> insert_index n k v obj
          | None \<Rightarrow> obj @ [(k, v)])"
proof -
  have "(\<lambda>(k', v'). if k' = k then (k', v) else (k', v')) = (\<lambda>p. if fst p = k then (fst p, v) else p)"
    by (rule ext) (simp add: case_prod_unfold)
  then show ?thesis unfolding obj_define_def by (simp only:)
qed

lemma map_of_append_new:
  "k \<notin> set (map fst obj) \<Longrightarrow> map_of (obj @ [(k, v)]) x = ((map_of obj)(k \<mapsto> v)) x"
proof (induction obj)
  case Nil
  show ?case by simp
next
  case (Cons p obj)
  obtain k' v' where p: "p = (k', v')" by (cases p)
  from Cons.prems have ne: "k \<noteq> k'" and notin: "k \<notin> set (map fst obj)" by (simp_all add: p)
  from Cons.IH [OF notin] ne show ?case by (auto simp: p simp del: map_of_append)
qed

lemma map_of_obj_define: "map_of (obj_define obj k v) x = ((map_of obj)(k \<mapsto> v)) x"
proof (cases "k \<in> set (map fst obj)")
  case True
  then show ?thesis by (simp only: obj_define_alt if_True map_of_update_all) simp
next
  case False
  show ?thesis
  proof (cases "array_index k")
    case None
    with False show ?thesis
      by (simp only: obj_define_alt if_False option.case map_of_append_new [OF False])
  next
    case (Some n)
    with False show ?thesis
      by (simp only: obj_define_alt if_False option.case map_of_insert_index [OF False])
  qed
qed


lemma obj_get_obj_define: "obj_get (obj_define obj k v) k' = (if k' = k then v else obj_get obj k')"
  by (simp add: obj_get_def map_of_obj_define)

lemma obj_get_eq: "map_of obj k = map_of obj' k \<Longrightarrow> obj_get obj k = obj_get obj' k"
  by (simp add: obj_get_def)


lemma foldl_obj_assign:
  "foldl (\<lambda>acc x. obj_assign acc (kf x) (vf x)) acc xs
     = foldl (\<lambda>acc x. obj_define acc (kf x) (vf x)) acc
         (filter (\<lambda>x. kf x \<noteq> ''__proto__'') xs)"
  by (induction xs arbitrary: acc) (simp_all add: obj_assign_def)

lemma build_row_define:
  "build_row rd cols
     = foldl (\<lambda>acc c. obj_define acc c (rd c)) [] (filter (\<lambda>c. c \<noteq> ''__proto__'') cols)"
  unfolding build_row_def by (rule foldl_obj_assign)


lemma build_row_idx_define:
  "''__proto__'' \<notin> set cols \<Longrightarrow>
   build_row_idx arr cols
     = foldl (\<lambda>acc p. obj_define acc (fst p) (arr_get arr (snd p))) []
         (zip cols [0..<length cols])"
proof -
  assume n: "''__proto__'' \<notin> set cols"
  have "filter (\<lambda>p. fst p \<noteq> ''__proto__'') (zip cols [0..<length cols])
          = zip cols [0..<length cols]"
    using n by (auto simp: filter_id_conv dest: set_zip_leftD)
  with foldl_obj_assign [of fst "\<lambda>p. arr_get arr (snd p)" "[]" "zip cols [0..<length cols]"]
  show ?thesis by (simp add: build_row_idx_def case_prod_unfold)
qed


lemma map_of_foldl_rd:
  "map_of (foldl (\<lambda>acc c. obj_define acc c (rd c)) acc cols) c
     = (if c \<in> set cols then Some (rd c) else map_of acc c)"
  by (induction cols arbitrary: acc) (auto simp: map_of_obj_define)

lemma map_of_build_row:
  "map_of (build_row rd cols) c
     = (if c \<in> set cols \<and> c \<noteq> ''__proto__'' then Some (rd c) else None)"
  by (simp add: build_row_define map_of_foldl_rd)

lemma obj_get_build_row:
  "c \<in> set cols \<Longrightarrow> c \<noteq> ''__proto__'' \<Longrightarrow> obj_get (build_row rd cols) c = rd c"
  by (simp add: obj_get_def map_of_build_row)

lemma obj_get_build_row_proto:
  "obj_get (build_row rd cols) ''__proto__'' = JProto ObjectPrototype"
  by (simp add: obj_get_def map_of_build_row Object_prototype_get_def)

section \<open>Rows of a normalized table\<close>





text \<open>Every table that the normalizer returns comes from one of its three branches.\<close>

lemma normalize_nonstring_cases:
  assumes "normalizeSqlResult rt raw = Inr (Some t)" and "\<not> isString raw"
  shows "direct_table rt raw = Some t \<or> t = \<lparr>columns = [], rows = []\<rparr>
         \<or> (\<exists>first xs. array_table rt first xs = Some (Inr t))"
proof -
  from assms(2) have ns: "(case raw of JStr s \<Rightarrow> f s | _ \<Rightarrow> Inr None) = Inr None" for f
    by (cases raw) simp_all
  from assms(1) show ?thesis
    by (subst (asm) normalizeSqlResult.simps)
       (auto simp: ns split: if_splits option.splits sum.splits list.splits)
qed

lemma normalize_cases:
  assumes "normalizeSqlResult rt raw = Inr (Some t)"
  shows "(\<exists>raw'. direct_table rt raw' = Some t) \<or> t = \<lparr>columns = [], rows = []\<rparr>
         \<or> (\<exists>first xs. array_table rt first xs = Some (Inr t))"
proof (cases "isString raw")
  case False
  with assms normalize_nonstring_cases show ?thesis by blast
next
  case True
  then obtain s where s: "raw = JStr s" by (cases raw) simp_all
  with assms obtain xs where "normalizeSqlResult rt (JArr xs) = Inr (Some t)"
    by (auto simp: normalize_string split: option.splits sum.splits if_splits)
  then show ?thesis using normalize_nonstring_cases [of rt "JArr xs" t] by auto
qed

lemma direct_table_rows:
  assumes "direct_table rt raw = Some t"
  shows "\<exists>srcs. rows t = map (\<lambda>r. build_row (row_source rt r) (columns t)) srcs"
  using assms by (auto simp: direct_table_def Let_def split: if_splits)

lemma array_table_rows:
  assumes "array_table rt first xs = Some (Inr t)"
  shows "(\<exists>rds. rows t = map (\<lambda>rd. build_row rd (columns t)) rds)
         \<or> (\<exists>n arrs. columns t = tuple_columns n
               \<and> rows t = map (\<lambda>arr. build_row_idx arr (columns t)) arrs)"
proof (cases "isPlainObject first")
  case True
  with assms obtain cols where
    t: "t = \<lparr>columns = cols, rows = map (\<lambda>r. build_row (opt_get rt r) cols) xs\<rparr>"
    by (auto simp: array_table_def split: sum.splits)
  have "rows t = map (\<lambda>rd. build_row rd (columns t)) (map (opt_get rt) xs)"
    by (simp add: t comp_def)
  then show ?thesis by blast
next
  case False
  with assms have
    t: "t = \<lparr>columns = tuple_columns (Max (set (map tuple_len xs))),
              rows = map (\<lambda>r. build_row_idx (if isArray r then array_elems r else [])
                                (tuple_columns (Max (set (map tuple_len xs))))) xs\<rparr>"
    by (auto simp: array_table_def Let_def split: if_splits)
  have r: "rows t = map (\<lambda>arr. build_row_idx arr (columns t))
                   (map (\<lambda>r. if isArray r then array_elems r else []) xs)"
    by (simp add: t comp_def)
  have c: "columns t = tuple_columns (Max (set (map tuple_len xs)))" by (simp add: t)
  from c r show ?thesis by blast
qed

lemma normalize_rows:
  assumes "normalizeSqlResult rt raw = Inr (Some t)"
  shows "(\<exists>rds. rows t = map (\<lambda>rd. build_row rd (columns t)) rds)
         \<or> (\<exists>n arrs. columns t = tuple_columns n
               \<and> rows t = map (\<lambda>arr. build_row_idx arr (columns t)) arrs)"
proof -
  from normalize_cases [OF assms] consider
      raw' where "direct_table rt raw' = Some t"
    | "t = \<lparr>columns = [], rows = []\<rparr>"
    | first xs where "array_table rt first xs = Some (Inr t)"
    by blast
  then show ?thesis
  proof cases
    case 1
    from direct_table_rows [OF 1] obtain srcs where
      "rows t = map (\<lambda>r. build_row (row_source rt r) (columns t)) srcs" by blast
    then have "rows t = map (\<lambda>rd. build_row rd (columns t)) (map (row_source rt) srcs)"
      by (simp add: comp_def)
    then show ?thesis by blast
  next
    case 2
    then have "rows t = map (\<lambda>rd. build_row rd (columns t)) []" by simp
    then show ?thesis by blast
  next
    case 3
    then show ?thesis by (rule array_table_rows)
  qed
qed











section \<open>Tuple arrays\<close>

lemma digit_of_digit_char: "d < 10 \<Longrightarrow> digit_of (digit_char d) = Some d"
proof -
  assume "d < 10"
  then have "d \<in> {0, 1, 2, 3, 4, 5, 6, 7, 8, 9}" by auto
  then show ?thesis by (auto simp: digit_of_def digit_char_def)
qed

lemma dec_value_dec_of_nat: "dec_value (dec_of_nat n) = n"
proof (induction n rule: dec_of_nat.induct)
  case (1 n)
  show ?case
  proof (cases "n < 10")
    case True
    then show ?thesis
      by (subst dec_of_nat.simps) (simp add: dec_value_def digit_of_digit_char)
  next
    case False
    then have "dec_value (dec_of_nat (n div 10)) = n div 10" by (rule "1.IH")
    moreover have "digit_of (digit_char (n mod 10)) = Some (n mod 10)"
      by (simp add: digit_of_digit_char)
    ultimately show ?thesis
      using False by (subst dec_of_nat.simps) (simp add: dec_value_def)
  qed
qed

lemma dec_of_nat_inj: "dec_of_nat a = dec_of_nat b \<Longrightarrow> a = b"
  by (metis dec_value_dec_of_nat)

lemma dec_of_nat_digits: "list_all (\<lambda>c. digit_of c \<noteq> None) (dec_of_nat n)"
proof (induction n rule: dec_of_nat.induct)
  case (1 n)
  show ?case
  proof (cases "n < 10")
    case True
    then show ?thesis by (subst dec_of_nat.simps) (simp add: digit_of_digit_char)
  next
    case False
    with "1.IH" show ?thesis
      by (subst dec_of_nat.simps) (simp add: digit_of_digit_char)
  qed
qed

lemma dec_of_nat_nonempty: "dec_of_nat n \<noteq> []"
  by (subst dec_of_nat.simps) simp


lemma distinct_tuple_columns: "distinct (tuple_columns n)"
proof (cases "n = 2")
  case True
  then show ?thesis by (simp add: tuple_columns_def)
next
  case False
  have "inj_on (\<lambda>i. ''col_'' @ dec_of_nat (i + 1)) (set [0..<n])"
    by (rule inj_onI) (auto dest: dec_of_nat_inj)
  with False show ?thesis by (simp add: tuple_columns_def distinct_map)
qed

lemma obj_get_foldl_other:
  "k \<notin> kf ` set ps \<Longrightarrow>
   obj_get (foldl (\<lambda>acc p. obj_define acc (kf p) (vf p)) acc ps) k = obj_get acc k"
  by (induction ps arbitrary: acc) (auto simp: obj_get_obj_define)

lemma obj_get_foldl_distinct:
  "distinct (map kf ps) \<Longrightarrow> p \<in> set ps \<Longrightarrow>
   obj_get (foldl (\<lambda>acc p. obj_define acc (kf p) (vf p)) acc ps) (kf p) = vf p"
proof (induction ps arbitrary: acc)
  case Nil
  then show ?case by simp
next
  case (Cons q ps)
  show ?case
  proof (cases "p = q")
    case True
    from Cons.prems(1) have "kf q \<notin> kf ` set ps" by simp
    then show ?thesis using True by (simp add: obj_get_foldl_other obj_get_obj_define)
  next
    case False
    with Cons.prems have "p \<in> set ps" "distinct (map kf ps)" by simp_all
    then show ?thesis by (simp add: Cons.IH)
  qed
qed

lemma proto_notin_tuple_columns: "''__proto__'' \<notin> set (tuple_columns n)"
  by (auto simp: tuple_columns_def)

lemma obj_get_build_row_idx:
  assumes "distinct cols" "j < length cols" "''__proto__'' \<notin> set cols"
  shows "obj_get (build_row_idx arr cols) (cols ! j) = arr_get arr j"
proof -
  let ?ps = "zip cols [0..<length cols]"
  have d: "distinct (map fst ?ps)" using assms(1) by (simp only: map_fst_zip length_upt diff_zero)
  have m: "(cols ! j, j) \<in> set ?ps"
    using assms(2) by (auto simp: set_zip intro!: exI [of _ j])
  have "build_row_idx arr cols = foldl (\<lambda>acc p. obj_define acc (fst p) (arr_get arr (snd p))) [] ?ps"
    by (rule build_row_idx_define [OF assms(3)])
  with obj_get_foldl_distinct [OF d m, of "\<lambda>p. arr_get arr (snd p)" "[]"]
  show ?thesis by simp
qed





section \<open>Properties of the row sort\<close>

lemma find_or_finite:
  "\<exists>q. find_or isFiniteNumber vs (JNum (Fin 0)) = JNum (Fin q)"
proof (cases "find isFiniteNumber vs")
  case None
  then show ?thesis by (simp add: find_or_def)
next
  case (Some v)
  then have "isFiniteNumber v" by (auto simp: find_Some_iff)
  then obtain q where "v = JNum (Fin q)" by (auto simp: isFiniteNumber_iff)
  with Some show ?thesis by (simp add: find_or_def nullish_def)
qed

lemma find_or_string:
  "\<exists>s. find_or isString vs (JStr []) = JStr s"
proof (cases "find isString vs")
  case None
  then show ?thesis by (simp add: find_or_def)
next
  case (Some v)
  then have "isString v" by (auto simp: find_Some_iff)
  then obtain s where "v = JStr s" by (auto simp: isString_iff)
  with Some show ?thesis by (simp add: find_or_def nullish_def)
qed

lemma getVal_repValue: "getVal r = JNum (Fin (repValue r))"
  using find_or_finite [of "Object_values r"] by (auto simp: getVal_def repValue_def)

lemma getLabel_repLabel: "getLabel r = JStr (repLabel r)"
  using find_or_string [of "Object_values r"] by (auto simp: getLabel_def repLabel_def)

text \<open>
  The comparator converts a number with \<^verbatim>\<open>Number\<close> and a string with \<^verbatim>\<open>String\<close>, so it
  never throws, and neither does the sort.
\<close>

lemma compareRows_eq: "compareRows rt sortBy a b = Inr (row_order rt sortBy a b)"
  by (simp add: compareRows_def row_order_def getVal_repValue getLabel_repLabel
        js_Number_def js_String_def split: SortBy.splits)

lemma sort_insert_total:
  assumes "\<And>x y. cmp x y = Inr (c x y)"
  shows "sort_insert cmp x ys = Inr (insert_by c x ys)"
  by (induction ys) (simp_all add: assms)

lemma Array_sort_total:
  assumes "\<And>x y. cmp x y = Inr (c x y)"
  shows "Array_sort cmp xs = Inr (sort_by c xs)"
proof (induction xs)
  case Nil
  show ?case by (simp add: sort_by_def)
next
  case (Cons x xs)
  then show ?case by (simp add: sort_by_def sort_insert_total [of cmp c, OF assms])
qed

lemma sortRows_eq: "sortRows rt rws sortBy = Inr (sort_by (row_order rt sortBy) rws)"
  unfolding sortRows_def by (rule Array_sort_total) (rule compareRows_eq)

lemma sort_by_Cons: "sort_by c (x # xs) = insert_by c x (sort_by c xs)"
  by (simp add: sort_by_def)

lemma mset_insert_by: "mset (insert_by c x ys) = add_mset x (mset ys)"
  by (induction ys) simp_all

lemma mset_sort_by: "mset (sort_by c xs) = mset xs"
  by (induction xs) (simp_all add: sort_by_Cons mset_insert_by, simp add: sort_by_def)

lemma set_insert_by: "set (insert_by c x ys) = insert x (set ys)"
  by (induction ys) auto

lemma sorted_insert_by:
  fixes g :: "'a \<Rightarrow> rat"
  assumes c: "\<And>x y. is_positive (c x y) \<longleftrightarrow> g y < g x"
    and s: "sorted_wrt (\<lambda>a b. g a \<le> g b) ys"
  shows "sorted_wrt (\<lambda>a b. g a \<le> g b) (insert_by c x ys)"
  using s
proof (induction ys)
  case Nil
  show ?case by simp
next
  case (Cons y ys)
  show ?case
  proof (cases "is_positive (c x y)")
    case True
    then have "g y \<le> g x" by (simp add: c)
    with True Cons show ?thesis by (auto simp: set_insert_by)
  next
    case False
    then have "g x \<le> g y" by (simp add: c)
    with False Cons.prems show ?thesis by auto
  qed
qed

lemma sorted_sort_by:
  fixes g :: "'a \<Rightarrow> rat"
  assumes c: "\<And>x y. is_positive (c x y) \<longleftrightarrow> g y < g x"
  shows "sorted_wrt (\<lambda>a b. g a \<le> g b) (sort_by c xs)"
proof (induction xs)
  case Nil
  show ?case by (simp add: sort_by_def)
next
  case (Cons x xs)
  with sorted_insert_by [of c g, OF c] show ?case by (simp add: sort_by_Cons)
qed

lemma filter_insert_by:
  assumes "\<And>y. y \<in> set ys \<Longrightarrow> key y = key x \<Longrightarrow> \<not> is_positive (c x y)"
  shows "filter (\<lambda>y. key y = k) (insert_by c x ys)
           = (if key x = k then x # filter (\<lambda>y. key y = k) ys else filter (\<lambda>y. key y = k) ys)"
  using assms
proof (induction ys)
  case Nil
  show ?case by simp
next
  case (Cons y ys)
  show ?case
  proof (cases "is_positive (c x y)")
    case True
    with Cons.prems have ne: "key y \<noteq> key x" by auto
    from Cons have "filter (\<lambda>y. key y = k) (insert_by c x ys)
           = (if key x = k then x # filter (\<lambda>y. key y = k) ys else filter (\<lambda>y. key y = k) ys)"
      by simp
    with True ne show ?thesis by auto
  next
    case False
    then show ?thesis by simp
  qed
qed

lemma stable_sort_by:
  assumes "\<And>x y. key y = key x \<Longrightarrow> \<not> is_positive (c x y)"
  shows "filter (\<lambda>y. key y = k) (sort_by c xs) = filter (\<lambda>y. key y = k) xs"
proof (induction xs)
  case Nil
  show ?case by (simp add: sort_by_def)
next
  case (Cons x xs)
  then show ?case
    using filter_insert_by [of "sort_by c xs" key x c k] assms by (simp add: sort_by_Cons)
qed

lemma sort_by_value_desc_sorted:
  "sorted_wrt (\<lambda>a b. repValue b \<le> repValue a) (sort_by (row_order rt value_desc) rws)"
proof -
  have "sorted_wrt (\<lambda>a b. - repValue a \<le> - repValue b) (sort_by (row_order rt value_desc) rws)"
    by (rule sorted_sort_by) (simp add: row_order_def)
  then show ?thesis by simp
qed

lemma sort_by_stable:
  assumes "sortBy = label_asc \<or> sortBy = label_desc \<Longrightarrow> \<forall>s. localeCompare rt s s = 0"
  shows "filter (\<lambda>r. sortKey sortBy r = k) (sort_by (row_order rt sortBy) rws)
           = filter (\<lambda>r. sortKey sortBy r = k) rws"
  using assms by (intro stable_sort_by) (cases sortBy; simp add: row_order_def sortKey_def)

lemma code_unit_compare_refl: "code_unit_compare s s = 0"
  by (induction s) simp_all

lemma sort_by_132:
  assumes "map repValue rws = [1, 3, 2]"
  shows "map repValue (sort_by (row_order rt value_desc) rws) = [3, 2, 1]"
proof -
  from assms obtain a b c where rws: "rws = [a, b, c]"
    and v: "repValue a = 1" "repValue b = 3" "repValue c = 2"
    by (auto simp: map_eq_Cons_conv)
  show ?thesis
    by (simp add: rws v sort_by_def row_order_def)
qed

subsection \<open>Representative values and column order\<close>

lemma obj_define_fresh:
  "k \<notin> set (map fst obj) \<Longrightarrow> array_index k = None \<Longrightarrow> obj_define obj k v = obj @ [(k, v)]"
  by (simp add: obj_define_alt)

lemma obj_define_same:
  "k \<in> set ks \<Longrightarrow> obj_define (map (\<lambda>c. (c, rd c)) ks) k (rd k) = map (\<lambda>c. (c, rd c)) ks"
proof -
  assume "k \<in> set ks"
  then have "k \<in> set (map fst (map (\<lambda>c. (c, rd c)) ks))" by (simp add: comp_def)
  then have "obj_define (map (\<lambda>c. (c, rd c)) ks) k (rd k)
               = map (\<lambda>p. if fst p = k then (fst p, rd k) else p) (map (\<lambda>c. (c, rd c)) ks)"
    by (simp only: obj_define_alt if_True)
  also have "\<dots> = map (\<lambda>c. (c, rd c)) ks" by (induction ks) simp_all
  finally show ?thesis .
qed

lemma foldl_obj_define_dedup:
  "list_all (\<lambda>c. array_index c = None) cols \<Longrightarrow>
   foldl (\<lambda>acc c. obj_define acc c (rd c)) (map (\<lambda>c. (c, rd c)) ks) cols
     = map (\<lambda>c. (c, rd c)) (foldl set_add ks cols)"
proof (induction cols arbitrary: ks)
  case Nil
  show ?case by simp
next
  case (Cons c cols)
  then have ni: "array_index c = None" and rest: "list_all (\<lambda>c. array_index c = None) cols"
    by simp_all
  have step: "obj_define (map (\<lambda>c. (c, rd c)) ks) c (rd c) = map (\<lambda>c. (c, rd c)) (set_add ks c)"
  proof (cases "c \<in> set ks")
    case True
    then show ?thesis by (simp add: obj_define_same set_add_def)
  next
    case False
    then have "c \<notin> set (map fst (map (\<lambda>c. (c, rd c)) ks))" by (simp add: comp_def)
    from obj_define_fresh [OF this ni] False show ?thesis by (simp add: set_add_def)
  qed
  show ?case using Cons.IH [OF rest, of "set_add ks c"] by (simp add: step)
qed

lemma find_app:
  "find P (xs @ ys) = (case find P xs of Some v \<Rightarrow> Some v | None \<Rightarrow> find P ys)"
  by (induction xs) simp_all

lemma find_set_add:
  "find P (map rd (foldl set_add ks cols))
     = (case find P (map rd ks) of Some v \<Rightarrow> Some v | None \<Rightarrow> find P (map rd cols))"
proof (induction cols arbitrary: ks)
  case Nil
  show ?case by (simp split: option.splits)
next
  case (Cons c cols)
  have "find P (map rd (set_add ks c))
          = (case find P (map rd ks) of Some v \<Rightarrow> Some v
             | None \<Rightarrow> if P (rd c) then Some (rd c) else None)"
  proof (cases "c \<in> set ks")
    case True
    then have "find P (map rd ks) = None \<Longrightarrow> \<not> P (rd c)" by (auto simp: find_None_iff)
    with True show ?thesis by (auto simp: set_add_def split: option.splits)
  next
    case False
    then show ?thesis by (simp add: set_add_def find_app split: option.splits)
  qed
  then show ?case by (simp add: Cons.IH split: option.splits)
qed

text \<open>
  The assignment under \<^verbatim>\<open>__proto__\<close> defines no property, and the read of
  \<^verbatim>\<open>__proto__\<close> on the row gives \<^verbatim>\<open>Object.prototype\<close>, which is not a number: the column
  contributes to neither side.
\<close>

lemma find_skip:
  assumes "\<And>x. x \<in> set xs \<Longrightarrow> Q x \<Longrightarrow> f x = g x"
    and "\<And>x. x \<in> set xs \<Longrightarrow> \<not> Q x \<Longrightarrow> \<not> P (f x)"
  shows "find P (map f xs) = find P (map g (filter Q xs))"
  using assms by (induction xs) auto

lemma values_build_row:
  assumes "list_all (\<lambda>c. array_index c = None) cols"
  shows "find P (Object_values (build_row rd cols))
           = find P (map rd (filter (\<lambda>c. c \<noteq> ''__proto__'') cols))"
proof -
  let ?cols = "filter (\<lambda>c. c \<noteq> ''__proto__'') cols"
  from assms have "list_all (\<lambda>c. array_index c = None) ?cols" by (simp add: list_all_iff)
  from foldl_obj_define_dedup [OF this, of rd "[]"]
  have "build_row rd cols = map (\<lambda>c. (c, rd c)) (foldl set_add [] ?cols)"
    by (simp add: build_row_define)
  then have "Object_values (build_row rd cols) = map rd (foldl set_add [] ?cols)"
    by (simp add: Object_values_def comp_def)
  with find_set_add [of P rd "[]" ?cols] show ?thesis by simp
qed

lemma columns_build_row:
  "find isFiniteNumber (map (obj_get (build_row rd cols)) cols)
     = find isFiniteNumber (map rd (filter (\<lambda>c. c \<noteq> ''__proto__'') cols))"
proof (rule find_skip)
  fix c assume "c \<in> set cols" "c \<noteq> ''__proto__''"
  then show "obj_get (build_row rd cols) c = rd c" by (rule obj_get_build_row)
next
  fix c assume "c \<in> set cols" "\<not> c \<noteq> ''__proto__''"
  then show "\<not> isFiniteNumber (obj_get (build_row rd cols) c)"
    by (simp add: obj_get_build_row_proto)
qed

lemma getVal_build_row:
  "list_all (\<lambda>c. array_index c = None) cols \<Longrightarrow>
   getVal (build_row rd cols) = spec_representativeValue cols (build_row rd cols)"
  by (simp add: getVal_def spec_representativeValue_def find_or_def values_build_row
        columns_build_row)

lemma foldl_obj_define_fresh:
  "distinct (map kf ps) \<Longrightarrow> kf ` set ps \<inter> set (map fst acc) = {} \<Longrightarrow>
   list_all (\<lambda>p. array_index (kf p) = None) ps \<Longrightarrow>
   foldl (\<lambda>acc p. obj_define acc (kf p) (vf p)) acc ps = acc @ map (\<lambda>p. (kf p, vf p)) ps"
proof (induction ps arbitrary: acc)
  case Nil
  show ?case by simp
next
  case (Cons p ps)
  from Cons.prems have fresh: "kf p \<notin> set (map fst acc)" and ni: "array_index (kf p) = None"
    by auto
  have s: "obj_define acc (kf p) (vf p) = acc @ [(kf p, vf p)]"
    by (rule obj_define_fresh [OF fresh ni])
  from Cons.prems have "distinct (map kf ps)"
    "kf ` set ps \<inter> set (map fst (acc @ [(kf p, vf p)])) = {}"
    "list_all (\<lambda>p. array_index (kf p) = None) ps" by auto
  from Cons.IH [OF this] show ?case by (simp add: s)
qed

lemma getVal_build_row_idx:
  assumes d: "distinct cols" and ni: "list_all (\<lambda>c. array_index c = None) cols"
    and np: "''__proto__'' \<notin> set cols"
  shows "getVal (build_row_idx arr cols) = spec_representativeValue cols (build_row_idx arr cols)"
proof -
  let ?n = "length cols"
  let ?ps = "zip cols [0..<?n]"
  have ps1: "map fst ?ps = cols" by (simp only: map_fst_zip length_upt diff_zero)
  have ps2: "map snd ?ps = [0..<?n]" by (rule map_snd_zip) simp
  have "list_all (\<lambda>p. array_index (fst p) = None) ?ps"
    using ni by (auto simp: list_all_iff dest: set_zip_leftD)
  moreover have "distinct (map fst ?ps)" using d by (simp only: ps1)
  ultimately have "foldl (\<lambda>acc p. obj_define acc (fst p) (arr_get arr (snd p))) [] ?ps
      = [] @ map (\<lambda>p. (fst p, arr_get arr (snd p))) ?ps"
    by (intro foldl_obj_define_fresh) simp_all
  then have row: "build_row_idx arr cols = map (\<lambda>p. (fst p, arr_get arr (snd p))) ?ps"
    by (simp add: build_row_idx_define [OF np])
  have "map (\<lambda>p. arr_get arr (snd p)) ?ps = map (arr_get arr) (map snd ?ps)"
    by (simp only: map_map comp_def)
  then have "Object_values (build_row_idx arr cols) = map (arr_get arr) (map snd ?ps)"
    by (simp add: row Object_values_def comp_def)
  then have v: "Object_values (build_row_idx arr cols) = map (arr_get arr) [0..<?n]"
    by (simp only: ps2)
  have "map (obj_get (build_row_idx arr cols)) cols = map (arr_get arr) [0..<?n]"
    by (rule nth_equalityI) (simp_all add: obj_get_build_row_idx [OF d _ np])
  with v show ?thesis by (simp add: getVal_def spec_representativeValue_def)
qed

lemma normalize_values:
  assumes a: "normalizeSqlResult rt raw = Inr (Some t)"
    and ni: "list_all (\<lambda>c. array_index c = None) (columns t)"
  shows "list_all (\<lambda>r. getVal r = spec_representativeValue (columns t) r) (rows t)"
  using normalize_rows [OF a]
proof
  assume "\<exists>rds. rows t = map (\<lambda>rd. build_row rd (columns t)) rds"
  with ni show ?thesis by (auto simp: list_all_iff getVal_build_row)
next
  assume "\<exists>n arrs. columns t = tuple_columns n
               \<and> rows t = map (\<lambda>arr. build_row_idx arr (columns t)) arrs"
  then obtain n arrs where c: "columns t = tuple_columns n"
    and r: "rows t = map (\<lambda>arr. build_row_idx arr (tuple_columns n)) arrs" by auto
  from ni c have "list_all (\<lambda>c. array_index c = None) (tuple_columns n)" by simp
  then have "getVal (build_row_idx arr (tuple_columns n))
               = spec_representativeValue (tuple_columns n) (build_row_idx arr (tuple_columns n))"
    for arr
    by (intro getVal_build_row_idx distinct_tuple_columns proto_notin_tuple_columns)
  then show ?thesis by (simp add: c r list_all_iff)
qed

text \<open>
  Claim C7 defines the representative value as the first finite number met when the row
  is read in column order. \<^verbatim>\<open>sortRows\<close> reads \<^verbatim>\<open>Object.values(r)\<close>, which lists a
  property whose name is an array index before the others. For the table
  \<^verbatim>\<open>{columns: ["v","1"], rows: [{"1": 3, v: 1}, {"1": 0, v: 2}]}\<close> the normalizer returns
  the two rows unchanged, and \<^verbatim>\<open>sortRows\<close> with \<^verbatim>\<open>value_desc\<close> leaves them in an order
  in which the representative values read in column order are \<open>1, 2\<close>: ascending, not
  descending.
\<close>

theorem C7_not_sorted_in_column_order:
  "normalizeSqlResult sample_runtime
     (JObj [(''columns'', JArr [JStr ''v'', JStr ''1'']),
            (''rows'', JArr [JObj [(''1'', JNum (Fin 3)), (''v'', JNum (Fin 1))],
                             JObj [(''1'', JNum (Fin 0)), (''v'', JNum (Fin 2))]])])
     = Inr (Some \<lparr>columns = [''v'', ''1''],
                   rows = [[(''1'', JNum (Fin 3)), (''v'', JNum (Fin 1))],
                           [(''1'', JNum (Fin 0)), (''v'', JNum (Fin 2))]]\<rparr>)
   \<and> sortRows sample_runtime
        [[(''1'', JNum (Fin 3)), (''v'', JNum (Fin 1))],
         [(''1'', JNum (Fin 0)), (''v'', JNum (Fin 2))]] value_desc
     = Inr [[(''1'', JNum (Fin 3)), (''v'', JNum (Fin 1))],
            [(''1'', JNum (Fin 0)), (''v'', JNum (Fin 2))]]
   \<and> map (spec_representativeValue [''v'', ''1''])
        [[(''1'', JNum (Fin 3)), (''v'', JNum (Fin 1))],
         [(''1'', JNum (Fin 0)), (''v'', JNum (Fin 2))]]
     = [JNum (Fin 1), JNum (Fin 2)]"
  by (simp add: normalizeSqlResult.simps direct_table_def row_source_def js_eval
        dec_of_nat.simps sortRows_def compareRows_def getVal_def getLabel_def find_or_def
        nullish_def js_Number_def js_String_def spec_representativeValue_def)

text \<open>
  Claim C7, amended. \<^verbatim>\<open>sortRows\<close> never throws. With \<^verbatim>\<open>value_desc\<close> it returns the rows
  in descending order of their representative value, where the representative value of
  a row is the first finite number among its values in the order \<^verbatim>\<open>Object.values\<close> lists
  them, \<open>0\<close> when there is none. For the rows of a table returned by the normalizer this
  is the first finite number in column order whenever no column name is an array index.
  Representative values \<open>1, 3, 2\<close> come out as \<open>3, 2, 1\<close>. Under every order the result
  is a permutation of the input, and the rows with any one comparison key (the value for
  the value orders, the label for the label orders) keep their relative input order; for
  the label orders this uses that \<^verbatim>\<open>localeCompare\<close> returns \<open>0\<close> on equal strings.
\<close>

theorem C7_sortRows:
  "(\<exists>out. sortRows rt rws value_desc = Inr out
       \<and> sorted_wrt (\<lambda>a b. repValue b \<le> repValue a) out
       \<and> (map repValue rws = [1, 3, 2] \<longrightarrow> map repValue out = [3, 2, 1]))
   \<and> getVal r = find_or isFiniteNumber (Object_values r) (JNum (Fin 0))
   \<and> getVal r = JNum (Fin (repValue r))
   \<and> (normalizeSqlResult rt raw = Inr (Some t)
        \<and> list_all (\<lambda>c. array_index c = None) (columns t) \<longrightarrow>
        list_all (\<lambda>r. getVal r = spec_representativeValue (columns t) r) (rows t))
   \<and> (\<exists>out. sortRows rt rws sortBy = Inr out
       \<and> mset out = mset rws
       \<and> ((sortBy = label_asc \<or> sortBy = label_desc \<longrightarrow> (\<forall>s. localeCompare rt s s = 0)) \<longrightarrow>
            filter (\<lambda>r. sortKey sortBy r = k) out = filter (\<lambda>r. sortKey sortBy r = k) rws))"
proof (intro conjI)
  show "\<exists>out. sortRows rt rws value_desc = Inr out
       \<and> sorted_wrt (\<lambda>a b. repValue b \<le> repValue a) out
       \<and> (map repValue rws = [1, 3, 2] \<longrightarrow> map repValue out = [3, 2, 1])"
    by (intro exI [of _ "sort_by (row_order rt value_desc) rws"] conjI impI)
       (simp_all add: sortRows_eq sort_by_value_desc_sorted sort_by_132)
  show "getVal r = find_or isFiniteNumber (Object_values r) (JNum (Fin 0))"
    by (simp add: getVal_def)
  show "getVal r = JNum (Fin (repValue r))" by (rule getVal_repValue)
  show "normalizeSqlResult rt raw = Inr (Some t)
        \<and> list_all (\<lambda>c. array_index c = None) (columns t) \<longrightarrow>
        list_all (\<lambda>r. getVal r = spec_representativeValue (columns t) r) (rows t)"
    using normalize_values by blast
  have "filter (\<lambda>r. sortKey sortBy r = k) (sort_by (row_order rt sortBy) rws)
          = filter (\<lambda>r. sortKey sortBy r = k) rws"
    if "sortBy = label_asc \<or> sortBy = label_desc \<longrightarrow> (\<forall>s. localeCompare rt s s = 0)"
    using that by (intro sort_by_stable) blast
  then show "\<exists>out. sortRows rt rws sortBy = Inr out
       \<and> mset out = mset rws
       \<and> ((sortBy = label_asc \<or> sortBy = label_desc \<longrightarrow> (\<forall>s. localeCompare rt s s = 0)) \<longrightarrow>
            filter (\<lambda>r. sortKey sortBy r = k) out = filter (\<lambda>r. sortKey sortBy r = k) rws)"
    by (intro exI [of _ "sort_by (row_order rt sortBy) rws"] conjI)
       (simp_all add: sortRows_eq mset_sort_by)
qed

theorem C7_sortRows_witness:
  "map repValue [[(''v'', JNum (Fin 1))], [(''v'', JNum (Fin 3))], [(''v'', JNum (Fin 2))]]
     = [1, 3, 2]
   \<and> map_sum id (map repValue)
       (sortRows sample_runtime
          [[(''v'', JNum (Fin 1))], [(''v'', JNum (Fin 3))], [(''v'', JNum (Fin 2))]] value_desc)
     = Inr [3, 2, 1]
   \<and> sortRows sample_runtime
        [[(''v'', JNum (Fin 1))], [(''v'', JNum (Fin 3))], [(''v'', JNum (Fin 2))],
         [(''w'', JNum (Fin 2))]] value_desc
     = Inr [[(''v'', JNum (Fin 3))], [(''v'', JNum (Fin 2))], [(''w'', JNum (Fin 2))],
            [(''v'', JNum (Fin 1))]]
   \<and> map_sum id (filter (\<lambda>r. sortKey label_asc r = Inr ''b''))
        (sortRows sample_runtime
           [[(''n'', JStr ''b''), (''i'', JNum (Fin 1))], [(''n'', JStr ''a'')],
            [(''n'', JStr ''b''), (''i'', JNum (Fin 2))]] label_asc)
     = Inr [[(''n'', JStr ''b''), (''i'', JNum (Fin 1))],
            [(''n'', JStr ''b''), (''i'', JNum (Fin 2))]]
   \<and> normalizeSqlResult sample_runtime (JArr [JObj [(''v'', JNum (Fin 1))]])
     = Inr (Some \<lparr>columns = [''v''], rows = [[(''v'', JNum (Fin 1))]]\<rparr>)
   \<and> getVal [(''v'', JNum (Fin 1))] = spec_representativeValue [''v''] [(''v'', JNum (Fin 1))]"
proof -
  let ?r3 = "[[(''v'', JNum (Fin 1))], [(''v'', JNum (Fin 3))], [(''v'', JNum (Fin 2))]]"
  let ?l3 = "[[(''n'', JStr ''b''), (''i'', JNum (Fin 1))], [(''n'', JStr ''a'')],
            [(''n'', JStr ''b''), (''i'', JNum (Fin 2))]]"
  let ?t = "\<lparr>columns = [''v''], rows = [[(''v'', JNum (Fin 1))]]\<rparr>"
  have ev: "repValue [(''v'', JNum (Fin q))] = q" "repValue [(''w'', JNum (Fin q))] = q" for q
    by (simp_all add: repValue_def getVal_def find_or_def nullish_def Object_values_def)
  have h1: "map repValue ?r3 = [1, 3, 2]" by (simp add: ev)
  have h2: "label_asc = label_asc \<or> label_asc = label_desc
              \<longrightarrow> (\<forall>s. localeCompare sample_runtime s s = 0)"
    by (simp add: sample_runtime_def code_unit_compare_refl)
  have h3: "normalizeSqlResult sample_runtime (JArr [JObj [(''v'', JNum (Fin 1))]]) = Inr (Some ?t)"
    by (simp add: normalizeSqlResult.simps array_table_def unionObjectKeys_def set_add_def
          js_eval)
  have h4: "list_all (\<lambda>c. array_index c = None) (columns ?t)"
    by (simp add: array_index_def digit_of_def)
  have s4: "sortRows sample_runtime (?r3 @ [[(''w'', JNum (Fin 2))]]) value_desc
     = Inr [[(''v'', JNum (Fin 3))], [(''v'', JNum (Fin 2))], [(''w'', JNum (Fin 2))],
            [(''v'', JNum (Fin 1))]]"
    by (simp add: sortRows_def compareRows_eq row_order_def ev)
  have f: "filter (\<lambda>r. sortKey label_asc r = Inr ''b'') ?l3
     = [[(''n'', JStr ''b''), (''i'', JNum (Fin 1))], [(''n'', JStr ''b''), (''i'', JNum (Fin 2))]]"
    by (simp add: sortKey_def repLabel_def getLabel_def find_or_def nullish_def Object_values_def)
  from C7_sortRows [of sample_runtime ?r3 "[(''v'', JNum (Fin 1))]"
                       "JArr [JObj [(''v'', JNum (Fin 1))]]" ?t label_asc "Inr ''b''"] h1
  have "\<exists>out. sortRows sample_runtime ?r3 value_desc = Inr out
          \<and> map repValue out = [3, 2, 1]"
    by (elim conjE exE) (intro exI conjI, assumption, simp)
  then have a: "map_sum id (map repValue) (sortRows sample_runtime ?r3 value_desc)
                  = Inr [3, 2, 1]"
    by auto
  from C7_sortRows [of sample_runtime ?r3 "[(''v'', JNum (Fin 1))]"
                       "JArr [JObj [(''v'', JNum (Fin 1))]]" ?t label_asc "Inr ''b''"] h3 h4
  have "list_all (\<lambda>r. getVal r = spec_representativeValue (columns ?t) r) (rows ?t)"
    by blast
  then have b: "getVal [(''v'', JNum (Fin 1))]
                  = spec_representativeValue [''v''] [(''v'', JNum (Fin 1))]"
    by simp
  from C7_sortRows [of sample_runtime ?l3 "[]" JNull ?t label_asc "Inr ''b''"] h2
  have "\<exists>out. sortRows sample_runtime ?l3 label_asc = Inr out
          \<and> filter (\<lambda>r. sortKey label_asc r = Inr ''b'') out
              = filter (\<lambda>r. sortKey label_asc r = Inr ''b'') ?l3"
    by (elim conjE exE) (intro exI conjI, assumption, simp)
  then have c: "map_sum id (filter (\<lambda>r. sortKey label_asc r = Inr ''b''))
                  (sortRows sample_runtime ?l3 label_asc)
             = Inr (filter (\<lambda>r. sortKey label_asc r = Inr ''b'') ?l3)"
    by auto
  from h1 a s4 c f h3 b show ?thesis by simp
qed

end
